theory Spec2Isabelle
  imports Complex_Main
begin

section \<open>Python values and exceptions\<close>

text \<open>
  The values that reach the helper are the JSON-like values of module parameters and of API
  responses: \<^verbatim>\<open>None\<close>, booleans, integers, floats, strings, lists and dictionaries
  with string keys.  A dictionary is an association list in insertion order (its keys are
  distinct in every value Python can build).  A float is \<^verbatim>\<open>nan\<close>, an infinity, or a
  finite number, which is given by its exact value (every finite float is a rational
  number; \<^verbatim>\<open>0.0\<close> and \<^verbatim>\<open>-0.0\<close> are the one value zero, as \<^verbatim>\<open>==\<close> has it).  Sets
  do not occur in the modelled paths and are left out.
\<close>

datatype pyfloat = Finite rat | PlusInf | MinusInf | NaN

datatype pyval =
    PNone
  | PBool bool
  | PInt int
  | PFloat pyfloat
  | PStr string
  | PList "pyval list"
  | PDict "(string \<times> pyval) list"

datatype exn =
    TypeError string
  | KeyError string
  | IndexError string
  | ValueError string
  | AttributeError string
  | OverflowError string
  | OSError string
  | ApiError string

text \<open>\<^verbatim>\<open>to_native(e)\<close>: the text of an exception; a \<^verbatim>\<open>KeyError\<close> prints the
  quoted key.\<close>

fun to_native :: "exn \<Rightarrow> string" where
  "to_native (TypeError m) = m"
| "to_native (KeyError k) = [CHR 0x27] @ k @ [CHR 0x27]"
| "to_native (IndexError m) = m"
| "to_native (ValueError m) = m"
| "to_native (AttributeError m) = m"
| "to_native (OverflowError m) = m"
| "to_native (OSError m) = m"
| "to_native (ApiError m) = m"

definition bindE :: "exn + 'a \<Rightarrow> ('a \<Rightarrow> exn + 'b) \<Rightarrow> exn + 'b" where
  "bindE m f = (case m of Inl e \<Rightarrow> Inl e | Inr x \<Rightarrow> f x)"

text \<open>\<^verbatim>\<open>any(f(x) for x in xs)\<close> and \<^verbatim>\<open>all(f(x) for x in xs)\<close>: the generator is
  consumed in order, evaluation stops at the first deciding element, and an exception
  raised on the way propagates.\<close>

fun any_m :: "('a \<Rightarrow> exn + bool) \<Rightarrow> 'a list \<Rightarrow> exn + bool" where
  "any_m f [] = Inr False"
| "any_m f (x # xs) =
     (case f x of Inl e \<Rightarrow> Inl e | Inr b \<Rightarrow> if b then Inr True else any_m f xs)"

fun all_m :: "('a \<Rightarrow> exn + bool) \<Rightarrow> 'a list \<Rightarrow> exn + bool" where
  "all_m f [] = Inr True"
| "all_m f (x # xs) =
     (case f x of Inl e \<Rightarrow> Inl e | Inr b \<Rightarrow> if b then all_m f xs else Inr False)"

lemma any_m_cong [fundef_cong]:
  "xs = ys \<Longrightarrow> (\<And>x. x \<in> set ys \<Longrightarrow> f x = g x) \<Longrightarrow> any_m f xs = any_m g ys"
  by (induction ys arbitrary: xs) (auto split: sum.splits)

lemma all_m_cong [fundef_cong]:
  "xs = ys \<Longrightarrow> (\<And>x. x \<in> set ys \<Longrightarrow> f x = g x) \<Longrightarrow> all_m f xs = all_m g ys"
  by (induction ys arbitrary: xs) (auto split: sum.splits)

lemma bindE_cong [fundef_cong]:
  "m = m' \<Longrightarrow> (\<And>x. m' = Inr x \<Longrightarrow> f x = g x) \<Longrightarrow> bindE m f = bindE m' g"
  by (auto simp: bindE_def split: sum.splits)

subsection \<open>Equality\<close>

text \<open>Python's \<^verbatim>\<open>==\<close> on these values.  \<^verbatim>\<open>bool\<close> is a subclass of \<^verbatim>\<open>int\<close>:
  \<^verbatim>\<open>True == 1\<close> and \<^verbatim>\<open>False == 0\<close> hold.  An integer and a float are compared by
  their exact values (\<^verbatim>\<open>1 == 1.0\<close>); \<^verbatim>\<open>nan\<close> is equal to nothing, itself included.
  A string equals only a string, \<^verbatim>\<open>None\<close> only \<^verbatim>\<open>None\<close>.  Lists are equal
  elementwise, dictionaries when they have the same keys with equal values.\<close>

definition int_of_bool :: "bool \<Rightarrow> int" where
  "int_of_bool b = (if b then 1 else 0)"

fun float_eq :: "pyfloat \<Rightarrow> pyfloat \<Rightarrow> bool" where
  "float_eq (Finite x) (Finite y) = (x = y)"
| "float_eq PlusInf PlusInf = True"
| "float_eq MinusInf MinusInf = True"
| "float_eq _ _ = False"

fun py_eq :: "pyval \<Rightarrow> pyval \<Rightarrow> bool" where
  "py_eq PNone PNone = True"
| "py_eq (PBool a) (PBool b) = (a = b)"
| "py_eq (PBool a) (PInt j) = (int_of_bool a = j)"
| "py_eq (PInt i) (PBool b) = (i = int_of_bool b)"
| "py_eq (PInt i) (PInt j) = (i = j)"
| "py_eq (PBool a) (PFloat y) = float_eq (Finite (of_int (int_of_bool a))) y"
| "py_eq (PFloat x) (PBool b) = float_eq x (Finite (of_int (int_of_bool b)))"
| "py_eq (PInt i) (PFloat y) = float_eq (Finite (of_int i)) y"
| "py_eq (PFloat x) (PInt j) = float_eq x (Finite (of_int j))"
| "py_eq (PFloat x) (PFloat y) = float_eq x y"
| "py_eq (PStr s) (PStr t) = (s = t)"
| "py_eq (PList []) (PList []) = True"
| "py_eq (PList (x # xs)) (PList (y # ys)) = (py_eq x y \<and> py_eq (PList xs) (PList ys))"
| "py_eq (PDict a) (PDict b) =
     (length a = length b \<and>
      list_all (\<lambda>(k, v). case map_of b k of None \<Rightarrow> False | Some v' \<Rightarrow> py_eq v v') a)"
| "py_eq _ _ = False"

subsection \<open>Containment, indexing and iteration\<close>

text \<open>\<^verbatim>\<open>key in s\<close> on a string is the substring test.\<close>

fun is_prefix :: "string \<Rightarrow> string \<Rightarrow> bool" where
  "is_prefix [] _ = True"
| "is_prefix (a # as) [] = False"
| "is_prefix (a # as) (b # bs) = (a = b \<and> is_prefix as bs)"

fun is_substr :: "string \<Rightarrow> string \<Rightarrow> bool" where
  "is_substr k [] = (k = [])"
| "is_substr k (c # cs) = (is_prefix k (c # cs) \<or> is_substr k cs)"

text \<open>\<^verbatim>\<open>key in superset\<close> for a string key.\<close>

fun py_contains :: "pyval \<Rightarrow> string \<Rightarrow> exn + bool" where
  "py_contains (PDict d) key = Inr (key \<in> set (map fst d))"
| "py_contains (PList l) key = Inr (list_ex (\<lambda>x. py_eq x (PStr key)) l)"
| "py_contains (PStr s) key = Inr (is_substr key s)"
| "py_contains PNone key = Inl (TypeError ''argument of type 'NoneType' is not iterable'')"
| "py_contains (PBool b) key = Inl (TypeError ''argument of type 'bool' is not iterable'')"
| "py_contains (PInt i) key = Inl (TypeError ''argument of type 'int' is not iterable'')"
| "py_contains (PFloat x) key = Inl (TypeError ''argument of type 'float' is not iterable'')"

text \<open>\<^verbatim>\<open>superset[key]\<close> for a string key.\<close>

fun py_getitem :: "pyval \<Rightarrow> string \<Rightarrow> exn + pyval" where
  "py_getitem (PDict d) key =
     (case map_of d key of None \<Rightarrow> Inl (KeyError key) | Some v \<Rightarrow> Inr v)"
| "py_getitem (PList l) key =
     Inl (TypeError ''list indices must be integers or slices, not str'')"
| "py_getitem (PStr s) key = Inl (TypeError ''string indices must be integers'')"
| "py_getitem PNone key = Inl (TypeError '''NoneType' object is not subscriptable'')"
| "py_getitem (PBool b) key = Inl (TypeError '''bool' object is not subscriptable'')"
| "py_getitem (PInt i) key = Inl (TypeError '''int' object is not subscriptable'')"
| "py_getitem (PFloat x) key = Inl (TypeError '''float' object is not subscriptable'')"

text \<open>\<^verbatim>\<open>for superitem in superset\<close>: a list yields its elements, a dictionary its keys,
  a string its characters.\<close>

fun py_iter :: "pyval \<Rightarrow> exn + pyval list" where
  "py_iter (PList l) = Inr l"
| "py_iter (PDict d) = Inr (map (\<lambda>kv. PStr (fst kv)) d)"
| "py_iter (PStr s) = Inr (map (\<lambda>c. PStr [c]) s)"
| "py_iter PNone = Inl (TypeError '''NoneType' object is not iterable'')"
| "py_iter (PBool b) = Inl (TypeError '''bool' object is not iterable'')"
| "py_iter (PInt i) = Inl (TypeError '''int' object is not iterable'')"
| "py_iter (PFloat x) = Inl (TypeError '''float' object is not iterable'')"

section \<open>The helper: \<^verbatim>\<open>TFEHelper\<close>\<close>

subsection \<open>\<^verbatim>\<open>is_subset\<close>\<close>

fun is_subset :: "pyval \<Rightarrow> pyval \<Rightarrow> exn + bool" where
  "is_subset (PDict items) superset =
     all_m (\<lambda>kv. bindE (py_contains superset (fst kv)) (\<lambda>present.
              if present
              then bindE (py_getitem superset (fst kv)) (\<lambda>sup. is_subset (snd kv) sup)
              else Inr False)) items"
| "is_subset (PList subitems) superset =
     all_m (\<lambda>subitem. bindE (py_iter superset) (\<lambda>superitems.
              any_m (\<lambda>superitem. is_subset subitem superitem) superitems)) subitems"
| "is_subset sub superset = Inr (py_eq sub superset)"

subsection \<open>\<^verbatim>\<open>listify_comma_sep_strings_in_list\<close>\<close>

text \<open>\<^verbatim>\<open>s.strip()\<close> removes leading and trailing whitespace; the whitespace characters
  below code point 256 are listed.  \<^verbatim>\<open>s.split(',')\<close> cuts at every comma and always
  yields at least one piece.\<close>

definition is_space :: "char \<Rightarrow> bool" where
  "is_space c = ((of_char c :: nat) \<in> set [9, 10, 11, 12, 13, 28, 29, 30, 31, 32, 133, 160])"

definition strip :: "string \<Rightarrow> string" where
  "strip s = rev (dropWhile is_space (rev (dropWhile is_space s)))"

fun split_comma :: "string \<Rightarrow> string list" where
  "split_comma [] = [[]]"
| "split_comma (c # cs) =
     (if c = CHR '','' then [] # split_comma cs
      else (case split_comma cs of [] \<Rightarrow> [[c]] | p # ps \<Rightarrow> (c # p) # ps))"

text \<open>The first loop: elements containing a comma are remembered for removal and their
  stripped pieces are collected.\<close>

fun collect_comma_sep :: "string list \<Rightarrow> string list \<times> string list \<Rightarrow> string list \<times> string list"
  where
  "collect_comma_sep [] (new_list, remove_from_original_list) =
     (new_list, remove_from_original_list)"
| "collect_comma_sep (element # rest) (new_list, remove_from_original_list) =
     (if CHR '','' \<in> set element
      then collect_comma_sep rest
             (new_list @ map strip (split_comma element), remove_from_original_list @ [element])
      else collect_comma_sep rest (new_list, remove_from_original_list))"

text \<open>\<^verbatim>\<open>some_list.remove(element)\<close> deletes the first occurrence and raises
  \<^verbatim>\<open>ValueError\<close> when there is none.\<close>

fun list_remove :: "string \<Rightarrow> string list \<Rightarrow> exn + string list" where
  "list_remove x [] = Inl (ValueError ''list.remove(x): x not in list'')"
| "list_remove x (y # ys) =
     (if x = y then Inr ys else bindE (list_remove x ys) (\<lambda>zs. Inr (y # zs)))"

fun remove_all :: "string list \<Rightarrow> string list \<Rightarrow> exn + string list" where
  "remove_all [] some_list = Inr some_list"
| "remove_all (element # rest) some_list =
     bindE (list_remove element some_list) (\<lambda>some_list'. remove_all rest some_list')"

definition listify_comma_sep_strings_in_list :: "string list \<Rightarrow> exn + string list" where
  "listify_comma_sep_strings_in_list some_list =
     (case collect_comma_sep some_list ([], []) of
        (new_list, remove_from_original_list) \<Rightarrow>
          bindE (remove_all remove_from_original_list some_list) (\<lambda>removed.
            let extended = removed @ new_list in
            if extended = [[]] then Inr [] else Inr extended))"

text \<open>The caller in \<^verbatim>\<open>tfe_run_info.main\<close>: the \<^verbatim>\<open>run\<close> parameter is stripped
  element by element, normalized, and an empty outcome becomes the wildcard.\<close>

definition tfe_run_info_runs :: "string list \<Rightarrow> exn + string list" where
  "tfe_run_info_runs run =
     bindE (listify_comma_sep_strings_in_list (map strip run)) (\<lambda>runs.
       if runs = [] then Inr [''*''] else Inr runs)"

subsection \<open>\<^verbatim>\<open>call_endpoint\<close>\<close>

text \<open>
  The remote API and the clock are the environment.  A run carries the state of the
  remote side (\<open>world\<close>, of any type) and a \<open>log\<close> of what the run did to its
  environment: each invocation of an endpoint with its outcome, and each sleep.
\<close>

datatype endpoint =
    Orgs_list | Set_org
  | Workspaces_list_all | Workspaces_destroy | Workspaces_update | Workspaces_lock
  | Workspaces_unlock | Workspaces_assign_ssh_key | Workspaces_unassign_ssh_key
  | Workspaces_create | Ssh_keys_list
  | Oauth_clients_list | Oauth_clients_destroy | Oauth_clients_update
  | Oauth_clients_show | Oauth_clients_create

datatype event = Invoked endpoint bool | Slept int

record 'w st =
  world :: 'w
  log :: "event list"

text \<open>An endpoint of the API client is a function on the remote state that returns or
  raises.  \<open>invoke\<close> is the method bound to its name: calling it is recorded, with
  \<open>True\<close> when it returned.\<close>

type_synonym ('w, 'r) remote = "'w \<Rightarrow> (exn + 'r) \<times> 'w"

definition invoke :: "endpoint \<Rightarrow> ('w, 'r) remote \<Rightarrow> 'w st \<Rightarrow> (exn + 'r) \<times> 'w st" where
  "invoke ep f s =
     (case f (world s) of
        (r, w') \<Rightarrow> (r, s\<lparr>world := w', log := log s @ [Invoked ep (\<not> isl r)]\<rparr>))"

text \<open>
  \<^verbatim>\<open>time.sleep(secs)\<close> raises \<^verbatim>\<open>ValueError\<close> on a negative length and
  \<^verbatim>\<open>OverflowError\<close> on a length whose nanoseconds do not fit 64 bits, that is from
  9223372037 seconds on.  Below that, the operating system refuses (\<^verbatim>\<open>OSError\<close>) a
  sleep that would end 9223372036 seconds or more after the start of its monotonic clock.
  The reading of that clock is not part of the state: a length counts as accepted when it
  is below \<open>sleep_limit\<close>, which leaves room for a clock that reads up to
  \<open>2 ^ 32\<close> seconds.
\<close>

definition sleep_limit :: int where
  "sleep_limit = 9223372036 - 2 ^ 32"

definition time_sleep :: "int \<Rightarrow> 'w st \<Rightarrow> (exn + unit) \<times> 'w st" where
  "time_sleep secs s =
     (if secs < 0 then (Inl (ValueError ''sleep length must be non-negative''), s)
      else if 9223372037 \<le> secs
      then (Inl (OverflowError ''timestamp too large to convert to C _PyTime_t''), s)
      else if sleep_limit \<le> secs then (Inl (OSError ''[Errno 22] Invalid argument''), s)
      else (Inr (), s\<lparr>log := log s @ [Slept secs]\<rparr>))"

record params =
  retries :: int
  sleep :: int

text \<open>The \<^verbatim>\<open>while\<close> loop of \<^verbatim>\<open>call_endpoint\<close>, with its two variables
  \<^verbatim>\<open>exception\<close> and \<^verbatim>\<open>retries\<close> (here \<open>n\<close>).  Raising \<^verbatim>\<open>None\<close> is a
  \<^verbatim>\<open>TypeError\<close>.\<close>

function call_endpoint_loop ::
  "'p params_scheme \<Rightarrow> ('w st \<Rightarrow> (exn + 'r) \<times> 'w st) \<Rightarrow> exn option \<Rightarrow> int \<Rightarrow> 'w st
     \<Rightarrow> (exn + 'r) \<times> 'w st"
  where
  "call_endpoint_loop p endpoint exception n s =
     (if n \<le> retries p then
        (case endpoint s of
           (Inr ret, s') \<Rightarrow> (Inr ret, s')
         | (Inl e, s') \<Rightarrow>
             (case time_sleep (sleep p) s' of
                (Inl e', s'') \<Rightarrow> (Inl e', s'')
              | (Inr _, s'') \<Rightarrow> call_endpoint_loop p endpoint (Some e) (n + 1) s''))
      else
        (case exception of
           None \<Rightarrow> (Inl (TypeError ''exceptions must derive from BaseException''), s)
         | Some e \<Rightarrow> (Inl e, s)))"
  by pat_completeness auto
termination
  by (relation "measure (\<lambda>(p, endpoint, exception, n, s). nat (retries p + 1 - n))") auto

declare call_endpoint_loop.simps [simp del]

definition call_endpoint ::
  "'p params_scheme \<Rightarrow> ('w st \<Rightarrow> (exn + 'r) \<times> 'w st) \<Rightarrow> 'w st \<Rightarrow> (exn + 'r) \<times> 'w st"
  where
  "call_endpoint p endpoint s = call_endpoint_loop p endpoint None 1 s"

section \<open>Vocabulary of the properties\<close>

text \<open>A scalar is a value that is neither a mapping nor a sequence.\<close>

definition scalar :: "pyval \<Rightarrow> bool" where
  "scalar v = (case v of PList _ \<Rightarrow> False | PDict _ \<Rightarrow> False | _ \<Rightarrow> True)"

text \<open>The numeric value of a number: a boolean counts as 1 or 0; \<^verbatim>\<open>nan\<close> and the
  infinities have none.\<close>

fun number :: "pyval \<Rightarrow> rat option" where
  "number (PBool p) = Some (of_int (int_of_bool p))"
| "number (PInt i) = Some (of_int i)"
| "number (PFloat (Finite x)) = Some x"
| "number _ = None"

text \<open>The observed value has the shape of the proposed one: it is a dictionary wherever
  the proposed value is a dictionary (at the keys it has in common with it) and a list
  wherever the proposed value is a list.\<close>

fun same_shape :: "pyval \<Rightarrow> pyval \<Rightarrow> bool" where
  "same_shape (PDict items) obs =
     (case obs of
        PDict d \<Rightarrow> list_all (\<lambda>kv. case map_of d (fst kv) of None \<Rightarrow> True
                                  | Some v \<Rightarrow> same_shape (snd kv) v) items
      | _ \<Rightarrow> False)"
| "same_shape (PList subitems) obs =
     (case obs of
        PList l \<Rightarrow> list_all (\<lambda>x. list_all (\<lambda>y. same_shape x y) l) subitems
      | _ \<Rightarrow> False)"
| "same_shape _ _ = True"

text \<open>What one element of the input contributes to the normalized list.\<close>

definition pieces :: "string \<Rightarrow> string list" where
  "pieces element =
     (if CHR '','' \<in> set element then map strip (split_comma element) else [element])"

text \<open>Reading the log: the sleeps, the invocations, and the invocations that
  returned.\<close>

fun slept :: "event \<Rightarrow> int list" where
  "slept (Slept secs) = [secs]"
| "slept (Invoked ep ok) = []"

fun called :: "event \<Rightarrow> endpoint list" where
  "called (Invoked ep ok) = [ep]"
| "called (Slept secs) = []"

fun returned :: "event \<Rightarrow> endpoint list" where
  "returned (Invoked ep ok) = (if ok then [ep] else [])"
| "returned (Slept secs) = []"

definition sleeps :: "event list \<Rightarrow> int list" where
  "sleeps evs = concat (map slept evs)"

definition invocations :: "event list \<Rightarrow> endpoint list" where
  "invocations evs = concat (map called evs)"

definition completed :: "event list \<Rightarrow> endpoint list" where
  "completed evs = concat (map returned evs)"

text \<open>An operation that raises the same error whenever it is invoked, on a remote side
  without state.\<close>

definition always_failing :: "(unit, pyval) remote" where
  "always_failing w = (Inl (ApiError ''503 Service Unavailable''), w)"

definition start :: "unit st" where
  "start = \<lparr>world = (), log = []\<rparr>"

text \<open>An operation that raises a different error at every invocation: the remote state
  counts the invocations and the error text has that many marks.\<close>

definition failing_nth :: "(nat, pyval) remote" where
  "failing_nth w = (Inl (ApiError (replicate w (CHR ''!''))), Suc w)"

section \<open>The modules\<close>

subsection \<open>Runs of a module\<close>

text \<open>
  A module invocation ends with \<^verbatim>\<open>exit_json\<close> (a result), with \<^verbatim>\<open>fail_json\<close> (one
  message; it leaves the process, so no \<^verbatim>\<open>except Exception\<close> catches it), or with an
  exception that nothing catches.
\<close>

datatype failure = Fail_json string | Uncaught exn

type_synonym ('w, 'a) run = "'w st \<Rightarrow> (failure + 'a) \<times> 'w st"

definition returnS :: "'a \<Rightarrow> ('w, 'a) run" where
  "returnS x s = (Inr x, s)"

definition fail_json :: "string \<Rightarrow> ('w, 'a) run" where
  "fail_json msg s = (Inl (Fail_json msg), s)"

definition bindS :: "('w, 'a) run \<Rightarrow> ('a \<Rightarrow> ('w, 'b) run) \<Rightarrow> ('w, 'b) run" where
  "bindS m f s = (case m s of (Inl e, s') \<Rightarrow> (Inl e, s') | (Inr x, s') \<Rightarrow> f x s')"

text \<open>A computation on values, outside every \<^verbatim>\<open>try\<close>.\<close>

definition pure_py :: "exn + 'a \<Rightarrow> ('w, 'a) run" where
  "pure_py m s = (case m of Inl e \<Rightarrow> (Inl (Uncaught e), s) | Inr x \<Rightarrow> (Inr x, s))"

text \<open>\<^verbatim>\<open>try: x = body  except Exception as e: handler(e)\<close>, and a call outside every
  \<^verbatim>\<open>try\<close>.\<close>

definition try_except ::
  "('w st \<Rightarrow> (exn + 'r) \<times> 'w st) \<Rightarrow> (exn \<Rightarrow> ('w, 'r) run) \<Rightarrow> ('w, 'r) run" where
  "try_except body handler s =
     (case body s of (Inl e, s') \<Rightarrow> handler e s' | (Inr x, s') \<Rightarrow> (Inr x, s'))"

definition unguarded :: "('w st \<Rightarrow> (exn + 'r) \<times> 'w st) \<Rightarrow> ('w, 'r) run" where
  "unguarded body s =
     (case body s of (Inl e, s') \<Rightarrow> (Inl (Uncaught e), s') | (Inr x, s') \<Rightarrow> (Inr x, s'))"

subsection \<open>Resources and the API client\<close>

text \<open>An element of the \<^verbatim>\<open>data\<close> list of a response: its \<^verbatim>\<open>id\<close>, its
  \<^verbatim>\<open>attributes\<close> and its \<^verbatim>\<open>relationships\<close>.\<close>

record resource =
  res_id :: string
  res_attributes :: "(string \<times> pyval) list"
  res_relationships :: "(string \<times> pyval) list"

text \<open>The endpoints of the API client (the \<^verbatim>\<open>terrasnek\<close> library) that the modelled
  modules call, with their keyword arguments.  The list endpoints return the \<^verbatim>\<open>data\<close>
  of their response.\<close>

record 'w api =
  orgs_list :: "('w, resource list) remote"
  set_org :: "string option \<Rightarrow> ('w, pyval) remote"
  workspaces_list_all :: "('w, resource list) remote"
  workspaces_destroy :: "string \<Rightarrow> ('w, pyval) remote"
  workspaces_update :: "string \<Rightarrow> pyval \<Rightarrow> ('w, pyval) remote"
  workspaces_lock :: "string \<Rightarrow> pyval \<Rightarrow> ('w, pyval) remote"
  workspaces_unlock :: "string \<Rightarrow> ('w, pyval) remote"
  workspaces_assign_ssh_key :: "string \<Rightarrow> pyval \<Rightarrow> ('w, pyval) remote"
  workspaces_unassign_ssh_key :: "string \<Rightarrow> pyval \<Rightarrow> ('w, pyval) remote"
  workspaces_create :: "pyval \<Rightarrow> ('w, pyval) remote"
  ssh_keys_list :: "('w, resource list) remote"
  oauth_clients_list :: "('w, resource list) remote"
  oauth_clients_destroy :: "string \<Rightarrow> ('w, pyval) remote"
  oauth_clients_update :: "string \<Rightarrow> pyval \<Rightarrow> ('w, pyval) remote"
  oauth_clients_show :: "string \<Rightarrow> ('w, pyval) remote"
  oauth_clients_create :: "pyval \<Rightarrow> ('w, pyval) remote"

text \<open>The endpoints that change the remote side.\<close>

fun mutating :: "endpoint \<Rightarrow> bool" where
  "mutating Orgs_list = False"
| "mutating Set_org = False"
| "mutating Workspaces_list_all = False"
| "mutating Ssh_keys_list = False"
| "mutating Oauth_clients_list = False"
| "mutating Oauth_clients_show = False"
| "mutating Workspaces_destroy = True"
| "mutating Workspaces_update = True"
| "mutating Workspaces_lock = True"
| "mutating Workspaces_unlock = True"
| "mutating Workspaces_assign_ssh_key = True"
| "mutating Workspaces_unassign_ssh_key = True"
| "mutating Workspaces_create = True"
| "mutating Oauth_clients_destroy = True"
| "mutating Oauth_clients_update = True"
| "mutating Oauth_clients_create = True"

subsection \<open>Small Python pieces\<close>

definition dq :: string where
  "dq = [CHR 0x22]"

definition quoted :: "string \<Rightarrow> string" where
  "quoted s = dq @ s @ dq"

text \<open>\<^verbatim>\<open>'%s' % x\<close> for a string or \<^verbatim>\<open>None\<close>.\<close>

definition pct_s :: "string option \<Rightarrow> string" where
  "pct_s x = (case x of None \<Rightarrow> ''None'' | Some s \<Rightarrow> s)"

definition opt_str :: "string option \<Rightarrow> pyval" where
  "opt_str x = (case x of None \<Rightarrow> PNone | Some s \<Rightarrow> PStr s)"

fun truthy :: "pyval \<Rightarrow> bool" where
  "truthy PNone = False"
| "truthy (PBool b) = b"
| "truthy (PInt i) = (i \<noteq> 0)"
| "truthy (PFloat x) = (x \<noteq> Finite 0)"
| "truthy (PStr s) = (s \<noteq> [])"
| "truthy (PList l) = (l \<noteq> [])"
| "truthy (PDict d) = (d \<noteq> [])"

text \<open>\<^verbatim>\<open>[x for x in xs if f(x)]\<close> and \<^verbatim>\<open>xs[0]\<close>.\<close>

fun filter_m :: "('a \<Rightarrow> exn + bool) \<Rightarrow> 'a list \<Rightarrow> exn + 'a list" where
  "filter_m f [] = Inr []"
| "filter_m f (x # xs) =
     bindE (f x) (\<lambda>keep. bindE (filter_m f xs) (\<lambda>rest. Inr (if keep then x # rest else rest)))"

definition first :: "'a list \<Rightarrow> exn + 'a" where
  "first xs = (case xs of [] \<Rightarrow> Inl (IndexError ''list index out of range'') | x # _ \<Rightarrow> Inr x)"

text \<open>\<^verbatim>\<open>r['attributes'][key]\<close>, and \<^verbatim>\<open>d.get(key, default)\<close>, which only a dictionary
  has.\<close>

definition attribute :: "resource \<Rightarrow> string \<Rightarrow> exn + pyval" where
  "attribute r key = py_getitem (PDict (res_attributes r)) key"

definition py_get :: "pyval \<Rightarrow> string \<Rightarrow> pyval \<Rightarrow> exn + pyval" where
  "py_get d key dflt =
     (case d of
        PDict items \<Rightarrow> Inr (case map_of items key of None \<Rightarrow> dflt | Some v \<Rightarrow> v)
      | _ \<Rightarrow> Inl (AttributeError ''object has no attribute get''))"

text \<open>\<^verbatim>\<open>r['attributes']['name'] == name\<close>, and
  \<^verbatim>\<open>[r for r in data if <test>][0]['id']\<close>.\<close>

definition name_is :: "pyval \<Rightarrow> resource \<Rightarrow> exn + bool" where
  "name_is name r = bindE (attribute r ''name'') (\<lambda>v. Inr (py_eq v name))"

definition id_is :: "string \<Rightarrow> resource \<Rightarrow> exn + bool" where
  "id_is ident r = Inr (res_id r = ident)"

definition first_match :: "(resource \<Rightarrow> exn + bool) \<Rightarrow> resource list \<Rightarrow> exn + resource" where
  "first_match test data = bindE (filter_m test data) first"

definition first_id :: "(resource \<Rightarrow> exn + bool) \<Rightarrow> resource list \<Rightarrow> exn + string option" where
  "first_id test data = bindE (first_match test data) (\<lambda>r. Inr (Some (res_id r)))"

subsection \<open>\<^verbatim>\<open>get_org_name_when_exists\<close>\<close>

definition external_id_is :: "string \<Rightarrow> resource \<Rightarrow> exn + bool" where
  "external_id_is organization r =
     bindE (attribute r ''external-id'') (\<lambda>v. Inr (py_eq v (PStr organization)))"

text \<open>The search after the list has been fetched: by \<^verbatim>\<open>external-id\<close> first, then by
  \<^verbatim>\<open>id\<close>.\<close>

definition find_org_name :: "resource list \<Rightarrow> string \<Rightarrow> exn + string option" where
  "find_org_name data organization =
     bindE (any_m (external_id_is organization) data) (\<lambda>by_external_id.
     bindE (if by_external_id then first_id (external_id_is organization) data else Inr None)
       (\<lambda>org_name.
     if org_name = None
     then bindE (any_m (id_is organization) data) (\<lambda>by_id.
            if by_id then first_id (id_is organization) data else Inr org_name)
     else Inr org_name))"

definition get_org_name_when_exists ::
  "'w api \<Rightarrow> 'p params_scheme \<Rightarrow> string \<Rightarrow> bool \<Rightarrow> ('w, string option) run" where
  "get_org_name_when_exists api p organization return_org_name_on_unauthorized s =
     (case call_endpoint p (invoke Orgs_list (orgs_list api)) s of
        (Inl e, s') \<Rightarrow>
          if return_org_name_on_unauthorized then (Inr (Some organization), s')
          else fail_json (''Unable to list organizations. Error: '' @ to_native e @ ''.'') s'
      | (Inr all_organizations, s') \<Rightarrow> pure_py (find_org_name all_organizations organization) s')"

subsection \<open>Module parameters and results\<close>

datatype desired = Present | Absent

record module_params = params +
  check_mode :: bool
  organization :: string
  state :: desired
  attributes :: "(string \<times> pyval) list option"

record workspace_params = module_params +
  workspace :: "string option"
  locked :: "bool option"
  lock_reason :: "string option"
  ssh_key :: "string option"

record vcs_params = module_params +
  client :: "string option"

text \<open>The \<^verbatim>\<open>result\<close> dictionary: \<^verbatim>\<open>changed\<close>, \<^verbatim>\<open>json\<close> and the echoed
  parameters.\<close>

record result =
  changed :: bool
  json :: pyval
  out_state :: desired
  out_organization :: "string option"
  out_workspace :: "string option"
  out_client :: "string option"
  out_attributes :: "(string \<times> pyval) list option"

text \<open>The block that every change goes through:
  \<^verbatim>\<open>if not module.check_mode: try: result['json'] = tfe.call_endpoint(...)
  except Exception as e: module.fail_json(msg=...)\<close>, followed by
  \<^verbatim>\<open>result['changed'] = True\<close>.\<close>

definition act ::
  "'p module_params_scheme \<Rightarrow> ('w st \<Rightarrow> (exn + pyval) \<times> 'w st) \<Rightarrow> (exn \<Rightarrow> string) \<Rightarrow> result
     \<Rightarrow> ('w, result) run" where
  "act p endpoint msg result =
     bindS (if \<not> check_mode p
            then bindS (try_except (call_endpoint p endpoint) (\<lambda>e. fail_json (msg e)))
                   (\<lambda>response. returnS (result\<lparr>json := response\<rparr>))
            else returnS result)
       (\<lambda>result. returnS (result\<lparr>changed := True\<rparr>))"

text \<open>\<^verbatim>\<open>required_if\<close> of the argument specification, checked by \<^verbatim>\<open>AnsibleModule\<close>
  before anything else: when the condition holds, at least one of the listed parameters
  has to be given.\<close>

definition required_if :: "bool \<Rightarrow> bool list \<Rightarrow> string \<Rightarrow> ('w, unit) run" where
  "required_if condition given msg =
     (if condition \<and> \<not> list_ex (\<lambda>g. g) given then fail_json msg else returnS ())"

subsection \<open>\<^verbatim>\<open>tfe_workspace\<close>\<close>

definition workspace_required_if :: "workspace_params \<Rightarrow> ('w, unit) run" where
  "workspace_required_if p =
     bindS (required_if (state p = Absent) [workspace p \<noteq> None]
              ''state is absent but any of the following are missing: workspace'') (\<lambda>_.
     bindS (required_if (state p = Present)
              [attributes p \<noteq> None, locked p \<noteq> None, ssh_key p \<noteq> None]
              ''state is present but any of the following are missing: attributes, locked, ssh_key'')
       (\<lambda>_.
     required_if (locked p = Some True) [lock_reason p \<noteq> None]
       ''locked is True but any of the following are missing: lock_reason''))"

definition workspace_not_found :: "string \<Rightarrow> string option \<Rightarrow> string" where
  "workspace_not_found ws org =
     ''The supplied '' @ quoted ws @ '' workspace does not exist in ''
       @ quoted (pct_s org) @ '' organization.''"

definition name_required :: "string \<Rightarrow> string" where
  "name_required what = [CHR 0x60] @ ''name'' @ [CHR 0x60] @ '' is required when creating a new '' @ what"

text \<open>"Get existing workspace ID": by name, then by ID; a workspace that is not found
  is fatal only when \<^verbatim>\<open>state == 'present'\<close>.  Without a \<^verbatim>\<open>workspace\<close> parameter the
  workspace named in \<^verbatim>\<open>attributes\<close> is looked up.\<close>

definition resolve_workspace_id ::
  "workspace_params \<Rightarrow> string option \<Rightarrow> resource list \<Rightarrow> ('w, string option) run" where
  "resolve_workspace_id p org data =
     (case workspace p of
        Some ws \<Rightarrow>
          bindS (pure_py (any_m (name_is (PStr ws)) data)) (\<lambda>by_name.
            if by_name then pure_py (first_id (name_is (PStr ws)) data)
            else bindS (pure_py (any_m (id_is ws) data)) (\<lambda>by_id.
              if by_id then returnS (Some ws)
              else if state p = Present then fail_json (workspace_not_found ws org)
              else returnS None))
      | None \<Rightarrow>
          bindS (pure_py (py_contains (case attributes p of None \<Rightarrow> PNone | Some a \<Rightarrow> PDict a)
                   ''name'')) (\<lambda>has_name.
            if \<not> has_name then fail_json (name_required ''workspace'')
            else bindS (pure_py (py_getitem (case attributes p of None \<Rightarrow> PNone | Some a \<Rightarrow> PDict a)
                          ''name'')) (\<lambda>name.
              bindS (pure_py (any_m (name_is name) data)) (\<lambda>exists.
                if exists then pure_py (first_id (name_is name) data) else returnS None))))"

definition unable :: "string \<Rightarrow> string option \<Rightarrow> string option \<Rightarrow> exn \<Rightarrow> string" where
  "unable verb ws org e =
     ''Unable to '' @ verb @ '' '' @ quoted (pct_s ws) @ '' workspace in ''
       @ quoted (pct_s org) @ '' organization. Error: '' @ to_native e @ ''.''"

text \<open>"Destroy the workspace if it exists and state == 'absent'".\<close>

definition destroy_workspace ::
  "'w api \<Rightarrow> workspace_params \<Rightarrow> string option \<Rightarrow> string option \<Rightarrow> result \<Rightarrow> ('w, result) run"
  where
  "destroy_workspace api p org workspace_id result =
     (case workspace_id of
        Some wid \<Rightarrow>
          if state p = Absent
          then act p (invoke Workspaces_destroy (workspaces_destroy api wid))
                 (unable ''destroy'' (workspace p) org) result
          else returnS result
      | None \<Rightarrow> returnS result)"

text \<open>The three parts of "Update the workspace if it exists and state == 'present'":
  the attributes, the lock, the SSH key.\<close>

definition payload :: "(string \<times> pyval) list \<Rightarrow> pyval" where
  "payload attrs = PDict [(''data'', PDict [(''type'', PStr ''workspaces''), (''attributes'', PDict attrs)])]"

definition update_attributes ::
  "'w api \<Rightarrow> workspace_params \<Rightarrow> string option \<Rightarrow> resource list \<Rightarrow> string \<Rightarrow> result
     \<Rightarrow> ('w, result) run" where
  "update_attributes api p org data wid result =
     (case attributes p of
        None \<Rightarrow> returnS result
      | Some attrs \<Rightarrow>
          bindS (pure_py (first_match (id_is wid) data)) (\<lambda>w.
          bindS (pure_py (is_subset (PDict attrs) (PDict (res_attributes w)))) (\<lambda>unchanged.
            if \<not> unchanged
            then act p (invoke Workspaces_update (workspaces_update api wid (payload attrs)))
                   (unable ''update'' (workspace p) org) result
            else returnS result)))"

definition update_lock ::
  "'w api \<Rightarrow> workspace_params \<Rightarrow> string option \<Rightarrow> resource list \<Rightarrow> string \<Rightarrow> result
     \<Rightarrow> ('w, result) run" where
  "update_lock api p org data wid result =
     (case locked p of
        None \<Rightarrow> returnS result
      | Some lck \<Rightarrow>
          bindS (pure_py (bindE (first_match (id_is wid) data) (\<lambda>w. attribute w ''locked'')))
            (\<lambda>currently_locked.
          bindS (if lck \<and> \<not> truthy currently_locked
                 then act p (invoke Workspaces_lock
                               (workspaces_lock api wid
                                  (PDict [(''reason'', PStr (case lock_reason p of None \<Rightarrow> [] | Some r \<Rightarrow> r))])))
                        (unable ''lock'' (workspace p) org) result
                 else returnS result) (\<lambda>result.
          if \<not> lck \<and> truthy currently_locked
          then act p (invoke Workspaces_unlock (workspaces_unlock api wid))
                 (unable ''unlock'' (workspace p) org) result
          else returnS result)))"

definition ssh_key_payload :: "pyval \<Rightarrow> pyval" where
  "ssh_key_payload key_id =
     PDict [(''data'', PDict [(''attributes'', PDict [(''id'', key_id)]), (''type'', PStr ''workspaces'')])]"

definition resolve_ssh_key_id ::
  "string \<Rightarrow> string option \<Rightarrow> resource list \<Rightarrow> ('w, string option) run" where
  "resolve_ssh_key_id key org all_ssh_keys =
     (if key \<noteq> [] then
        bindS (pure_py (any_m (name_is (PStr key)) all_ssh_keys)) (\<lambda>by_name.
          if by_name then pure_py (first_id (name_is (PStr key)) all_ssh_keys)
          else bindS (pure_py (any_m (id_is key) all_ssh_keys)) (\<lambda>by_id.
            if by_id then returnS (Some key)
            else fail_json (''The supplied '' @ quoted key @ '' SSH key does not exist in ''
                             @ quoted (pct_s org) @ '' organization.'')))
      else returnS None)"

definition currently_assigned_ssh_key :: "resource \<Rightarrow> exn + pyval" where
  "currently_assigned_ssh_key w =
     bindE (py_get (PDict (res_relationships w)) ''ssh-key'' (PDict [])) (\<lambda>rel.
     bindE (py_get rel ''data'' (PDict [])) (\<lambda>d. py_get d ''id'' PNone))"

definition update_ssh_key ::
  "'w api \<Rightarrow> workspace_params \<Rightarrow> string option \<Rightarrow> resource list \<Rightarrow> string \<Rightarrow> result
     \<Rightarrow> ('w, result) run" where
  "update_ssh_key api p org data wid result =
     (case ssh_key p of
        None \<Rightarrow> returnS result
      | Some key \<Rightarrow>
          bindS (try_except (call_endpoint p (invoke Ssh_keys_list (ssh_keys_list api)))
                   (\<lambda>e. fail_json (''Unable to list SSH keys in '' @ quoted (pct_s org)
                                     @ '' organization. Error: '' @ to_native e @ ''.'')))
            (\<lambda>all_ssh_keys.
          bindS (resolve_ssh_key_id key org all_ssh_keys) (\<lambda>ssh_key_id.
          bindS (pure_py (bindE (first_match (id_is wid) data) currently_assigned_ssh_key))
            (\<lambda>current.
          bindS (if ssh_key_id \<noteq> None \<and> (current = PNone \<or> \<not> py_eq current (opt_str ssh_key_id))
                 then act p (invoke Workspaces_assign_ssh_key
                               (workspaces_assign_ssh_key api wid (ssh_key_payload (opt_str ssh_key_id))))
                        (\<lambda>e. ''Unable to assign '' @ quoted key @ '' SSH key to ''
                               @ quoted (pct_s (workspace p)) @ '' workspace. Error: ''
                               @ to_native e @ ''.'') result
                 else returnS result) (\<lambda>result.
          if ssh_key_id = None \<and> current \<noteq> PNone
          then act p (invoke Workspaces_unassign_ssh_key
                        (workspaces_unassign_ssh_key api wid (ssh_key_payload PNone)))
                 (\<lambda>e. ''Unable to unassign '' @ quoted key @ '' SSH key from ''
                        @ quoted (pct_s (workspace p)) @ '' workspace. Error: ''
                        @ to_native e @ ''.'') result
          else returnS result)))))"

definition update_workspace ::
  "'w api \<Rightarrow> workspace_params \<Rightarrow> string option \<Rightarrow> resource list \<Rightarrow> string option \<Rightarrow> result
     \<Rightarrow> ('w, result) run" where
  "update_workspace api p org data workspace_id result =
     (case workspace_id of
        Some wid \<Rightarrow>
          if state p = Present
          then bindS (update_attributes api p org data wid result) (\<lambda>result.
               bindS (update_lock api p org data wid result) (\<lambda>result.
               update_ssh_key api p org data wid result))
          else returnS result
      | None \<Rightarrow> returnS result)"

text \<open>"Create the workspace if it does not exist and state == 'present'".\<close>

definition create_workspace ::
  "'w api \<Rightarrow> workspace_params \<Rightarrow> string option \<Rightarrow> string option \<Rightarrow> result \<Rightarrow> ('w, result) run"
  where
  "create_workspace api p org workspace_id result =
     (if state p = Present \<and> workspace_id = None
      then bindS (pure_py (py_contains (case attributes p of None \<Rightarrow> PNone | Some a \<Rightarrow> PDict a)
                    ''name'')) (\<lambda>has_name.
             if \<not> has_name then fail_json (name_required ''workspace'')
             else act p (invoke Workspaces_create
                           (workspaces_create api
                              (PDict [(''data'', PDict [(''type'', PStr ''workspaces''),
                                 (''attributes'', case attributes p of None \<Rightarrow> PNone | Some a \<Rightarrow> PDict a)])])))
                    (unable ''create'' (workspace p) org) result)
      else returnS result)"

definition tfe_workspace_main :: "'w api \<Rightarrow> workspace_params \<Rightarrow> ('w, result) run" where
  "tfe_workspace_main api p =
     bindS (workspace_required_if p) (\<lambda>_.
     bindS (get_org_name_when_exists api p (organization p) True) (\<lambda>org.
     bindS (returnS \<lparr>changed = False, json = PDict [], out_state = state p,
                      out_organization = org, out_workspace = workspace p,
                      out_client = None, out_attributes = attributes p\<rparr>) (\<lambda>result.
     bindS (try_except (call_endpoint p (invoke Set_org (set_org api org)))
              (\<lambda>e. fail_json (''Unable to set '' @ quoted (pct_s org)
                                @ '' organization to use for org specific endpoints: ''
                                @ to_native e))) (\<lambda>_.
     bindS (try_except (call_endpoint p (invoke Workspaces_list_all (workspaces_list_all api)))
              (\<lambda>e. fail_json (''Unable to list workspaces in '' @ quoted (pct_s org)
                                @ '' organization. Error: '' @ to_native e @ ''.'')))
       (\<lambda>all_workspaces.
     bindS (resolve_workspace_id p org all_workspaces) (\<lambda>workspace_id.
     bindS (destroy_workspace api p org workspace_id result) (\<lambda>result.
     bindS (update_workspace api p org all_workspaces workspace_id result) (\<lambda>result.
     create_workspace api p org workspace_id result))))))))"

subsection \<open>\<^verbatim>\<open>tfe_vcs_connection\<close>\<close>

definition vcs_required_if :: "vcs_params \<Rightarrow> ('w, unit) run" where
  "vcs_required_if p =
     bindS (required_if (state p = Absent) [client p \<noteq> None]
              ''state is absent but any of the following are missing: client'') (\<lambda>_.
     required_if (state p = Present) [attributes p \<noteq> None]
       ''state is present but any of the following are missing: attributes'')"

definition multiple_clients :: "string \<Rightarrow> string option \<Rightarrow> string" where
  "multiple_clients cl org =
     ''Found multiple OAuth Clients with '' @ quoted cl @ '' name in '' @ quoted (pct_s org)
       @ '' organization. Refer to OAuth Client by its ID.''"

definition client_not_found :: "string \<Rightarrow> string option \<Rightarrow> string" where
  "client_not_found cl org =
     ''The supplied '' @ quoted cl @ '' OAuth Client does not exist in ''
       @ quoted (pct_s org) @ '' organization.''"

text \<open>"Get existing client ID": by ID first; then by name, where more than one client
  of that name is fatal; a client that is not found is fatal only when
  \<^verbatim>\<open>state == 'present'\<close>.  The first test is \<^verbatim>\<open>any\<close> of the list of matching
  resources, which holds when that list is not empty.\<close>

definition resolve_client_id ::
  "vcs_params \<Rightarrow> string option \<Rightarrow> resource list \<Rightarrow> ('w, string option) run" where
  "resolve_client_id p org data =
     (case client p of
        Some cl \<Rightarrow>
          bindS (pure_py (filter_m (id_is cl) data)) (\<lambda>by_id.
          bindS (if by_id \<noteq> [] then pure_py (first_id (id_is cl) data)
                 else bindS (pure_py (filter_m (name_is (PStr cl)) data)) (\<lambda>by_name.
                   let number_of_oauth_clients = length by_name in
                   bindS (if number_of_oauth_clients > 1 then fail_json (multiple_clients cl org)
                          else returnS ()) (\<lambda>_.
                   if number_of_oauth_clients = 1 then pure_py (first_id (name_is (PStr cl)) data)
                   else returnS None))) (\<lambda>client_id.
          if client_id = None \<and> state p = Present then fail_json (client_not_found cl org)
          else returnS client_id))
      | None \<Rightarrow>
          bindS (pure_py (py_contains (case attributes p of None \<Rightarrow> PNone | Some a \<Rightarrow> PDict a)
                   ''name'')) (\<lambda>has_name.
            if \<not> has_name then fail_json (name_required ''OAuth Client'')
            else bindS (pure_py (py_getitem (case attributes p of None \<Rightarrow> PNone | Some a \<Rightarrow> PDict a)
                          ''name'')) (\<lambda>name.
              bindS (pure_py (any_m (name_is name) data)) (\<lambda>exists.
                if exists then pure_py (first_id (name_is name) data) else returnS None))))"

definition unable_client :: "string \<Rightarrow> string option \<Rightarrow> string option \<Rightarrow> exn \<Rightarrow> string" where
  "unable_client verb cl org e =
     ''Unable to '' @ verb @ '' '' @ quoted (pct_s cl) @ '' OAuth Client in ''
       @ quoted (pct_s org) @ '' organization. Error: '' @ to_native e @ ''.''"

text \<open>"Remove the OAuth Client if it exists and state == 'absent'".\<close>

definition destroy_client ::
  "'w api \<Rightarrow> vcs_params \<Rightarrow> string option \<Rightarrow> string option \<Rightarrow> result \<Rightarrow> ('w, result) run" where
  "destroy_client api p org client_id result =
     (case client_id of
        Some cid \<Rightarrow>
          if state p = Absent
          then act p (invoke Oauth_clients_destroy (oauth_clients_destroy api cid))
                 (unable_client ''remove'' (client p) org) result
          else returnS result
      | None \<Rightarrow> returnS result)"

text \<open>"Update the OAuth Client if it exists and state == 'present'"; the client is
  then read back, outside every \<^verbatim>\<open>try\<close> and whatever the check mode.\<close>

definition update_client ::
  "'w api \<Rightarrow> vcs_params \<Rightarrow> string option \<Rightarrow> resource list \<Rightarrow> string option \<Rightarrow> result
     \<Rightarrow> ('w, result) run" where
  "update_client api p org data client_id result =
     (case client_id of
        Some cid \<Rightarrow>
          if state p = Present
          then
            bindS (pure_py (first_match (id_is cid) data)) (\<lambda>oc.
            bindS (pure_py (is_subset (case attributes p of None \<Rightarrow> PNone | Some a \<Rightarrow> PDict a)
                              (PDict (res_attributes oc)))) (\<lambda>unchanged.
            bindS (if \<not> unchanged
                   then act p (invoke Oauth_clients_update
                                 (oauth_clients_update api cid
                                    (PDict [(''data'', PDict [(''id'', PStr cid),
                                       (''type'', PStr ''oauth-clients''),
                                       (''attributes'', case attributes p of None \<Rightarrow> PNone | Some a \<Rightarrow> PDict a)])])))
                          (unable_client ''update'' (client p) org) result
                   else returnS result) (\<lambda>result.
            bindS (unguarded (call_endpoint p (invoke Oauth_clients_show (oauth_clients_show api cid))))
              (\<lambda>response. returnS (result\<lparr>json := response\<rparr>)))))
          else returnS result
      | None \<Rightarrow> returnS result)"

text \<open>"Create the OAuth Client if it does not exist and state == 'present'".\<close>

definition create_client ::
  "'w api \<Rightarrow> vcs_params \<Rightarrow> string option \<Rightarrow> string option \<Rightarrow> result \<Rightarrow> ('w, result) run" where
  "create_client api p org client_id result =
     (if state p = Present \<and> client_id = None
      then act p (invoke Oauth_clients_create
                    (oauth_clients_create api
                       (PDict [(''data'', PDict [(''type'', PStr ''oauth-clients''),
                          (''attributes'', case attributes p of None \<Rightarrow> PNone | Some a \<Rightarrow> PDict a)])])))
             (\<lambda>e. ''Unable to create OAuth Client in '' @ quoted (pct_s org)
                    @ '' organization. Error: '' @ to_native e @ ''.'') result
      else returnS result)"

definition tfe_vcs_connection_main :: "'w api \<Rightarrow> vcs_params \<Rightarrow> ('w, result) run" where
  "tfe_vcs_connection_main api p =
     bindS (vcs_required_if p) (\<lambda>_.
     bindS (get_org_name_when_exists api p (organization p) True) (\<lambda>org.
     bindS (returnS \<lparr>changed = False, json = PDict [], out_state = state p,
                      out_organization = org, out_workspace = None,
                      out_client = client p, out_attributes = attributes p\<rparr>) (\<lambda>result.
     bindS (try_except (call_endpoint p (invoke Set_org (set_org api org)))
              (\<lambda>e. fail_json (''Unable to set '' @ quoted (pct_s org)
                                @ '' organization to use for org specific endpoints: ''
                                @ to_native e))) (\<lambda>_.
     bindS (try_except (call_endpoint p (invoke Oauth_clients_list (oauth_clients_list api)))
              (\<lambda>e. fail_json (''Unable to list OAuth Clients in '' @ quoted (pct_s org)
                                @ '' organization. Error: '' @ to_native e @ ''.'')))
       (\<lambda>all_oauth_clients.
     bindS (resolve_client_id p org all_oauth_clients) (\<lambda>client_id.
     bindS (destroy_client api p org client_id result) (\<lambda>result.
     bindS (update_client api p org all_oauth_clients client_id result) (\<lambda>result.
     create_client api p org client_id result))))))))"


text \<open>What a run adds to the log: \<open>emits m P\<close> says that from every state the
  run \<open>m\<close> appends events that satisfy \<open>P\<close>.  \<open>reads_only\<close> events hold no
  invocation of a mutating endpoint; the \<open>effects\<close> of events are the mutating
  invocations that returned.\<close>

definition emits :: "('w st \<Rightarrow> 'x \<times> 'w st) \<Rightarrow> (event list \<Rightarrow> bool) \<Rightarrow> bool" where
  "emits m P \<longleftrightarrow> (\<forall>s. \<exists>evs. log (snd (m s)) = log s @ evs \<and> P evs)"

definition reads_only :: "event list \<Rightarrow> bool" where
  "reads_only evs \<longleftrightarrow> filter mutating (invocations evs) = []"

definition effects :: "event list \<Rightarrow> endpoint list" where
  "effects evs = filter mutating (completed evs)"

definition effects_in :: "endpoint list set \<Rightarrow> event list \<Rightarrow> bool" where
  "effects_in L evs \<longleftrightarrow> effects evs \<in> L"

text \<open>The mutating requests of a run, returned or not, are its \<open>attempted\<close> ones.
  They are those of a sequence of calls \<open>eps\<close> when the call of \<open>eps ! i\<close> accounts for
  \<open>ks ! i\<close> requests in a row, at least one and at most \<open>n\<close>, the number of attempts
  that \<^verbatim>\<open>call_endpoint\<close> allows.\<close>

definition attempted :: "event list \<Rightarrow> endpoint list" where
  "attempted evs = filter mutating (invocations evs)"

definition calls_in :: "int \<Rightarrow> endpoint list set \<Rightarrow> event list \<Rightarrow> bool" where
  "calls_in n L evs \<longleftrightarrow>
     (\<exists>eps ks. eps \<in> L \<and> length ks = length eps
        \<and> list_all (\<lambda>k. 0 < k \<and> int k \<le> n) ks
        \<and> attempted evs = concat (map2 replicate ks eps))"

subsection \<open>A remote side for concrete runs\<close>

text \<open>A remote side without state whose list endpoints return fixed collections and
  whose other endpoints succeed.\<close>

definition static_api :: "resource list \<Rightarrow> resource list \<Rightarrow> resource list \<Rightarrow> unit api" where
  "static_api orgs workspaces clients =
     \<lparr>orgs_list = (\<lambda>w. (Inr orgs, w)),
      set_org = (\<lambda>org w. (Inr PNone, w)),
      workspaces_list_all = (\<lambda>w. (Inr workspaces, w)),
      workspaces_destroy = (\<lambda>wid w. (Inr PNone, w)),
      workspaces_update = (\<lambda>wid pl w. (Inr pl, w)),
      workspaces_lock = (\<lambda>wid pl w. (Inr pl, w)),
      workspaces_unlock = (\<lambda>wid w. (Inr PNone, w)),
      workspaces_assign_ssh_key = (\<lambda>wid pl w. (Inr pl, w)),
      workspaces_unassign_ssh_key = (\<lambda>wid pl w. (Inr pl, w)),
      workspaces_create = (\<lambda>pl w. (Inr pl, w)),
      ssh_keys_list = (\<lambda>w. (Inr [], w)),
      oauth_clients_list = (\<lambda>w. (Inr clients, w)),
      oauth_clients_destroy = (\<lambda>cid w. (Inr PNone, w)),
      oauth_clients_update = (\<lambda>cid pl w. (Inr pl, w)),
      oauth_clients_show = (\<lambda>cid w. (Inr PNone, w)),
      oauth_clients_create = (\<lambda>pl w. (Inr pl, w))\<rparr>"

definition acme :: resource where
  "acme = \<lparr>res_id = ''acme'', res_attributes = [(''external-id'', PStr ''org-XYZ'')],
           res_relationships = []\<rparr>"

definition web :: resource where
  "web = \<lparr>res_id = ''ws-1'',
          res_attributes = [(''name'', PStr ''web''), (''locked'', PBool False),
                            (''auto-apply'', PBool False)],
          res_relationships = []\<rparr>"

definition github_1 :: resource where
  "github_1 = \<lparr>res_id = ''oc-1'', res_attributes = [(''name'', PStr ''github'')],
               res_relationships = []\<rparr>"

definition github_2 :: resource where
  "github_2 = \<lparr>res_id = ''oc-2'', res_attributes = [(''name'', PStr ''github'')],
               res_relationships = []\<rparr>"

definition demo_api :: "unit api" where
  "demo_api = static_api [acme] [web] [github_1, github_2]"

definition unauthorized_api :: "unit api" where
  "unauthorized_api = demo_api\<lparr>orgs_list := (\<lambda>w. (Inl (ApiError ''401 Unauthorized''), w))\<rparr>"

text \<open>\<^verbatim>\<open>state: absent\<close> for a workspace that does not exist.\<close>

definition absent_ghost :: workspace_params where
  "absent_ghost =
     \<lparr>retries = 3, sleep = 5, check_mode = False, organization = ''acme'', state = Absent,
      attributes = None, workspace = Some ''ghost'', locked = None, lock_reason = None,
      ssh_key = None\<rparr>"

text \<open>\<^verbatim>\<open>state: present\<close> for the workspace \<^verbatim>\<open>web\<close>, with a changed attribute and a
  lock.\<close>

definition present_web :: workspace_params where
  "present_web =
     \<lparr>retries = 3, sleep = 5, check_mode = False, organization = ''acme'', state = Present,
      attributes = Some [(''auto-apply'', PBool True)], workspace = Some ''web'',
      locked = Some True, lock_reason = Some ''maintenance'', ssh_key = None\<rparr>"

text \<open>\<^verbatim>\<open>state: absent\<close> for the client name that two clients share.\<close>

definition absent_github :: vcs_params where
  "absent_github =
     \<lparr>retries = 3, sleep = 5, check_mode = False, organization = ''acme'', state = Absent,
      attributes = None, client = Some ''github''\<rparr>"



text \<open>The mutating calls that one invocation of \<^verbatim>\<open>tfe_workspace\<close> can complete, in
  order: a destroy alone, a create alone, or, for an existing workspace, any selection of
  an update, a lock or unlock, and an SSH key assignment or unassignment.\<close>

definition update_effects :: "endpoint list list" where
  "update_effects =
     [a @ b @ c.
        a \<leftarrow> [[], [Workspaces_update]],
        b \<leftarrow> [[], [Workspaces_lock], [Workspaces_unlock]],
        c \<leftarrow> [[], [Workspaces_assign_ssh_key], [Workspaces_unassign_ssh_key]]]"

definition workspace_effects :: "endpoint list list" where
  "workspace_effects = [[Workspaces_destroy], [Workspaces_create]] @ update_effects"

text \<open>The mutating calls of one invocation of \<^verbatim>\<open>tfe_vcs_connection\<close>: none or
  one.\<close>

definition vcs_effects :: "endpoint list list" where
  "vcs_effects = [[], [Oauth_clients_destroy], [Oauth_clients_update], [Oauth_clients_create]]"

text \<open>\<^verbatim>\<open>state: present\<close> for a workspace that does not exist.\<close>

definition present_ghost :: workspace_params where
  "present_ghost = absent_ghost\<lparr>state := Present, attributes := Some [(''auto-apply'', PBool True)]\<rparr>"

section \<open>Properties of the helper\<close>

subsection \<open>The comparator\<close>

lemma all_m_total:
  assumes "\<And>x. x \<in> set xs \<Longrightarrow> \<exists>b. f x = Inr b"
  shows "\<exists>b. all_m f xs = Inr b"
  using assms
proof (induction xs)
  case Nil
  show ?case by auto
next
  case (Cons a xs)
  obtain b where "f a = Inr b" using Cons.prems[of a] by auto
  moreover have "\<exists>c. all_m f xs = Inr c" using Cons by simp
  ultimately show ?case by auto
qed

lemma any_m_total:
  assumes "\<And>x. x \<in> set xs \<Longrightarrow> \<exists>b. f x = Inr b"
  shows "\<exists>b. any_m f xs = Inr b"
  using assms
proof (induction xs)
  case Nil
  show ?case by auto
next
  case (Cons a xs)
  obtain b where "f a = Inr b" using Cons.prems[of a] by auto
  moreover have "\<exists>c. any_m f xs = Inr c" using Cons by simp
  ultimately show ?case by auto
qed

lemma same_shape_total: "same_shape p obs \<Longrightarrow> \<exists>b. is_subset p obs = Inr b"
proof (induction p obs rule: is_subset.induct)
  case (1 items superset)
  then obtain d where d: "superset = PDict d" by (cases superset) auto
  show ?case
    unfolding is_subset.simps
  proof (rule all_m_total)
    fix kv assume kv: "kv \<in> set items"
    show "\<exists>b. bindE (py_contains superset (fst kv)) (\<lambda>present.
              if present
              then bindE (py_getitem superset (fst kv)) (\<lambda>sup. is_subset (snd kv) sup)
              else Inr False) = Inr b"
    proof (cases "map_of d (fst kv)")
      case None
      then have "fst kv \<notin> fst ` set d" by (simp add: map_of_eq_None_iff)
      then show ?thesis using d by (auto simp add: bindE_def)
    next
      case (Some v)
      then have mem: "fst kv \<in> fst ` set d" by (metis map_of_eq_None_iff option.distinct(1))
      have "same_shape (snd kv) v" using 1(2) kv d Some by (auto simp: list_all_iff)
      then have "\<exists>b. is_subset (snd kv) v = Inr b"
        using 1(1)[OF kv, of True v] d Some mem by simp
      then show ?thesis using d Some mem by (simp add: bindE_def)
    qed
  qed
next
  case (2 subitems superset)
  then obtain l where l: "superset = PList l" by (cases superset) auto
  show ?case unfolding is_subset.simps
  proof (rule all_m_total)
    fix x assume x: "x \<in> set subitems"
    have "\<exists>b. any_m (\<lambda>superitem. is_subset x superitem) l = Inr b"
    proof (rule any_m_total)
      fix y assume y: "y \<in> set l"
      have "same_shape x y" using 2(2) x y l by (auto simp: list_all_iff)
      then show "\<exists>b. is_subset x y = Inr b" using 2(1)[OF x, of l y] l y by simp
    qed
    then show "\<exists>b. bindE (py_iter superset) (\<lambda>superitems.
              any_m (\<lambda>superitem. is_subset x superitem) superitems) = Inr b"
      using l by (simp add: bindE_def)
  qed
qed simp_all

lemma is_subset_nonempty_dict_raises:
  assumes "obs = PNone \<or> (\<exists>b. obs = PBool b) \<or> (\<exists>i. obs = PInt i)"
  shows "\<exists>m. is_subset (PDict (kv # items)) obs = Inl (TypeError m)"
  using assms by (auto simp: bindE_def)

lemma is_subset_nonempty_list_raises:
  assumes "obs = PNone \<or> (\<exists>b. obs = PBool b) \<or> (\<exists>i. obs = PInt i)"
  shows "\<exists>m. is_subset (PList (x # subitems)) obs = Inl (TypeError m)"
  using assms by (auto simp: bindE_def)

text \<open>A mapping compared with a list that holds one of its keys passes the containment
  test and then fails at the indexing: being some container is not enough, the observed
  value has to be a mapping where the proposed one is.\<close>

lemma is_subset_dict_against_list:
  "is_subset (PDict [(''a'', PInt 1)]) (PList [PStr ''a'']) =
     Inl (TypeError ''list indices must be integers or slices, not str'')"
  by (simp add: bindE_def)

text \<open>
  C3, as the code has it.  On two scalars \<^verbatim>\<open>is_subset\<close> is Python's \<^verbatim>\<open>==\<close>: it returns
  true exactly when the two values are the same value and not \<^verbatim>\<open>nan\<close>, or when both are
  numbers of the same numeric value, whatever their types: a boolean counts as 1 or 0, and
  an integer and a float are compared by value (\<^verbatim>\<open>True == 1 == 1.0\<close>).  \<^verbatim>\<open>nan\<close> is
  equal to nothing, itself included.  A string is never equal to a number, a boolean or
  \<^verbatim>\<open>None\<close>, and \<^verbatim>\<open>None\<close> only to itself; in particular
  \<^verbatim>\<open>is_subset({"x": 1}, {"x": "1"})\<close> is false.
\<close>

theorem is_subset_scalar_is_python_equality:
  "(scalar a \<longrightarrow> scalar b \<longrightarrow>
      is_subset a b =
        Inr ((a = b \<and> a \<noteq> PFloat NaN)
             \<or> (\<exists>q. number a = Some q \<and> number b = Some q)))
   \<and> is_subset (PDict [(''x'', PInt 1)]) (PDict [(''x'', PStr ''1'')]) = Inr False"
proof (rule conjI)
  have f: "float_eq x y \<longleftrightarrow>
      (x = y \<and> x \<noteq> NaN) \<or> (\<exists>q. number (PFloat x) = Some q \<and> number (PFloat y) = Some q)"
    for x y
    by (cases x; cases y) auto
  have g: "float_eq (Finite q) y \<longleftrightarrow> number (PFloat y) = Some q" for q y
    by (cases y) auto
  have h: "float_eq x (Finite q) \<longleftrightarrow> number (PFloat x) = Some q" for q x
    by (cases x) auto
  show "scalar a \<longrightarrow> scalar b \<longrightarrow>
      is_subset a b =
        Inr ((a = b \<and> a \<noteq> PFloat NaN)
             \<or> (\<exists>q. number a = Some q \<and> number b = Some q))"
    by (cases a; cases b) (auto simp: scalar_def f g h int_of_bool_def)
  show "is_subset (PDict [(''x'', PInt 1)]) (PDict [(''x'', PStr ''1'')]) = Inr False"
    by (simp add: bindE_def)
qed

theorem is_subset_scalar_is_python_equality_witness:
  "scalar (PStr ''true'') \<and> scalar (PBool True)
   \<and> is_subset (PStr ''true'') (PBool True) = Inr False
   \<and> scalar (PInt 1) \<and> scalar (PFloat (Finite 1))
   \<and> is_subset (PInt 1) (PFloat (Finite 1)) = Inr True
   \<and> scalar (PFloat NaN) \<and> is_subset (PFloat NaN) (PFloat NaN) = Inr False"
  using is_subset_scalar_is_python_equality [of "PStr ''true''" "PBool True"]
    is_subset_scalar_is_python_equality [of "PInt 1" "PFloat (Finite 1)"]
    is_subset_scalar_is_python_equality [of "PFloat NaN" "PFloat NaN"]
  by (simp add: scalar_def)

text \<open>C3 as stated fails: a desired boolean is satisfied by the observed number of the
  same magnitude, although the two values differ.\<close>

theorem is_subset_bool_int_counterexample:
  "is_subset (PBool True) (PInt 1) = Inr True \<and> PBool True \<noteq> PInt 1"
  by (simp add: int_of_bool_def)

text \<open>
  C10.  \<^verbatim>\<open>is_subset\<close> is not total.  \<^verbatim>\<open>is_subset({"a": 1}, 5)\<close> and
  \<^verbatim>\<open>is_subset([1], 5)\<close> raise \<^verbatim>\<open>TypeError\<close>, and so does every non-empty mapping or
  sequence compared with an integer, a boolean or \<^verbatim>\<open>None\<close>.  A boolean is returned whenever
  the observed value is a mapping wherever the proposed value is a mapping and a sequence
  wherever the proposed value is a sequence.
\<close>

theorem is_subset_not_total:
  "(\<exists>m. is_subset (PDict [(''a'', PInt 1)]) (PInt 5) = Inl (TypeError m))
   \<and> (\<exists>m. is_subset (PList [PInt 1]) (PInt 5) = Inl (TypeError m))
   \<and> (obs = PNone \<or> (\<exists>b. obs = PBool b) \<or> (\<exists>i. obs = PInt i) \<longrightarrow>
        (\<exists>m. is_subset (PDict (kv # items)) obs = Inl (TypeError m))
        \<and> (\<exists>m. is_subset (PList (x # subitems)) obs = Inl (TypeError m)))
   \<and> (same_shape proposed observed \<longrightarrow> (\<exists>b. is_subset proposed observed = Inr b))"
proof (intro conjI impI)
  show "\<exists>m. is_subset (PDict [(''a'', PInt 1)]) (PInt 5) = Inl (TypeError m)"
    by (rule is_subset_nonempty_dict_raises) simp
  show "\<exists>m. is_subset (PList [PInt 1]) (PInt 5) = Inl (TypeError m)"
    by (rule is_subset_nonempty_list_raises) simp
  show "\<exists>m. is_subset (PDict (kv # items)) obs = Inl (TypeError m)"
    if "obs = PNone \<or> (\<exists>b. obs = PBool b) \<or> (\<exists>i. obs = PInt i)"
    using that by (rule is_subset_nonempty_dict_raises)
  show "\<exists>m. is_subset (PList (x # subitems)) obs = Inl (TypeError m)"
    if "obs = PNone \<or> (\<exists>b. obs = PBool b) \<or> (\<exists>i. obs = PInt i)"
    using that by (rule is_subset_nonempty_list_raises)
  show "\<exists>b. is_subset proposed observed = Inr b" if "same_shape proposed observed"
    using that by (rule same_shape_total)
qed

theorem is_subset_not_total_witness:
  "(\<exists>m. is_subset (PDict [(''locked'', PBool True)]) PNone = Inl (TypeError m))
   \<and> (\<exists>m. is_subset (PList [PStr ''a'']) PNone = Inl (TypeError m))
   \<and> same_shape (PDict [(''tags'', PList [PStr ''a''])])
        (PDict [(''name'', PStr ''w''), (''tags'', PList [PStr ''b'', PStr ''a''])])
   \<and> (\<exists>b. is_subset (PDict [(''tags'', PList [PStr ''a''])])
        (PDict [(''name'', PStr ''w''), (''tags'', PList [PStr ''b'', PStr ''a''])]) = Inr b)"
  using is_subset_not_total [of PNone "(''locked'', PBool True)" "[]" "PStr ''a''" "[]"
      "PDict [(''tags'', PList [PStr ''a''])]"
      "PDict [(''name'', PStr ''w''), (''tags'', PList [PStr ''b'', PStr ''a''])]"]
  by simp

subsection \<open>The list normalizer\<close>

lemma collect_comma_sep_eq:
  "collect_comma_sep xs (nl, rm) =
     (nl @ concat (map (\<lambda>e. map strip (split_comma e)) (filter (\<lambda>e. CHR '','' \<in> set e) xs)),
      rm @ filter (\<lambda>e. CHR '','' \<in> set e) xs)"
  by (induction xs arbitrary: nl rm) simp_all

lemma list_remove_first:
  "x \<notin> set pre \<Longrightarrow> list_remove x (pre @ x # rest) = Inr (pre @ rest)"
  by (induction pre) (auto simp: bindE_def)

text \<open>Every remembered element is still in the list when its turn comes, so the removal
  loop never raises: it deletes exactly the elements that contain a comma.\<close>

lemma remove_all_filter:
  "\<forall>e \<in> set pre. \<not> P e \<Longrightarrow>
     remove_all (filter P xs) (pre @ xs) = Inr (pre @ filter (\<lambda>e. \<not> P e) xs)"
proof (induction xs arbitrary: pre)
  case Nil
  show ?case by simp
next
  case (Cons x xs)
  show ?case
  proof (cases "P x")
    case True
    then have "x \<notin> set pre" using Cons.prems by auto
    then show ?thesis using True Cons.IH[OF Cons.prems]
      by (simp add: list_remove_first bindE_def)
  next
    case False
    then have "\<forall>e \<in> set (pre @ [x]). \<not> P e" using Cons.prems by auto
    from Cons.IH[OF this] show ?thesis using False by simp
  qed
qed

lemma listify_eq:
  "listify_comma_sep_strings_in_list xs =
     (let extended = filter (\<lambda>e. CHR '','' \<notin> set e) xs
                     @ concat (map (\<lambda>e. map strip (split_comma e))
                                (filter (\<lambda>e. CHR '','' \<in> set e) xs))
      in if extended = [[]] then Inr [] else Inr extended)"
  using remove_all_filter[of "[]" "\<lambda>e. CHR '','' \<in> set e" xs]
  by (simp add: listify_comma_sep_strings_in_list_def
      collect_comma_sep_eq[of xs "[]" "[]", simplified] bindE_def Let_def)

lemma listify_total: "\<exists>ys. listify_comma_sep_strings_in_list xs = Inr ys"
  by (simp add: listify_eq Let_def)

lemma listify_elements:
  assumes "listify_comma_sep_strings_in_list xs = Inr ys" and "y \<in> set ys"
  shows "\<exists>x \<in> set xs. y \<in> set (pieces x)"
proof -
  have "y \<in> set (filter (\<lambda>e. CHR '','' \<notin> set e) xs)
      \<or> y \<in> set (concat (map (\<lambda>e. map strip (split_comma e))
                           (filter (\<lambda>e. CHR '','' \<in> set e) xs)))"
    using assms by (auto simp: listify_eq Let_def split: if_splits)
  then show ?thesis
  proof
    assume "y \<in> set (filter (\<lambda>e. CHR '','' \<notin> set e) xs)"
    then have "y \<in> set xs" "y \<in> set (pieces y)" by (simp_all add: pieces_def)
    then show ?thesis by blast
  next
    assume "y \<in> set (concat (map (\<lambda>e. map strip (split_comma e))
                               (filter (\<lambda>e. CHR '','' \<in> set e) xs)))"
    then obtain x where "x \<in> set xs" "CHR '','' \<in> set x"
        "y \<in> set (map strip (split_comma x))"
      by auto
    then have "x \<in> set xs" "y \<in> set (pieces x)" by (simp_all add: pieces_def)
    then show ?thesis by blast
  qed
qed

text \<open>
  C8.  The normalizer maps \<^verbatim>\<open>[""]\<close> to \<^verbatim>\<open>[]\<close>.  It always returns, and it never
  introduces the wildcard: a \<^verbatim>\<open>*\<close> in its result is an element of the input or a
  stripped piece of a comma-separated element of the input.  The substitution of
  \<^verbatim>\<open>["*"]\<close> for an empty normalized list is done by the caller, \<^verbatim>\<open>tfe_run_info\<close>,
  after the normalization.
\<close>

theorem normalizer_empty_and_wildcard:
  "listify_comma_sep_strings_in_list [''''] = Inr []
   \<and> (\<exists>ys. listify_comma_sep_strings_in_list xs = Inr ys)
   \<and> (listify_comma_sep_strings_in_list xs = Inr ys \<longrightarrow> ''*'' \<in> set ys \<longrightarrow>
         (\<exists>x \<in> set xs. ''*'' \<in> set (pieces x)))
   \<and> tfe_run_info_runs [''''] = Inr [''*'']
   \<and> (listify_comma_sep_strings_in_list (map strip run) = Inr [] \<longrightarrow>
         tfe_run_info_runs run = Inr [''*''])"
proof (intro conjI impI)
  show "listify_comma_sep_strings_in_list [''''] = Inr []"
    by (simp add: listify_eq)
  show "\<exists>ys. listify_comma_sep_strings_in_list xs = Inr ys"
    by (rule listify_total)
  show "\<exists>x \<in> set xs. ''*'' \<in> set (pieces x)"
    if "listify_comma_sep_strings_in_list xs = Inr ys" "''*'' \<in> set ys"
    using that by (rule listify_elements)
  show "tfe_run_info_runs [''''] = Inr [''*'']"
    by (simp add: tfe_run_info_runs_def listify_eq strip_def bindE_def)
  show "tfe_run_info_runs run = Inr [''*'']"
    if "listify_comma_sep_strings_in_list (map strip run) = Inr []"
    using that by (simp add: tfe_run_info_runs_def bindE_def)
qed

theorem normalizer_empty_and_wildcard_witness:
  "listify_comma_sep_strings_in_list [''*'', ''a,b''] = Inr [''*'', ''a'', ''b'']
   \<and> ''*'' \<in> set [''*'', ''a'', ''b'']
   \<and> (\<exists>x \<in> set [''*'', ''a,b'']. ''*'' \<in> set (pieces x))
   \<and> listify_comma_sep_strings_in_list (map strip ['' '']) = Inr []
   \<and> tfe_run_info_runs ['' ''] = Inr [''*'']"
proof -
  have l: "listify_comma_sep_strings_in_list [''*'', ''a,b''] = Inr [''*'', ''a'', ''b'']"
    by code_simp
  have e: "listify_comma_sep_strings_in_list (map strip ['' '']) = Inr []"
    by code_simp
  show ?thesis
    using normalizer_empty_and_wildcard [of "[''*'', ''a,b'']" "[''*'', ''a'', ''b'']" "['' '']"] l e
    by simp
qed

subsection \<open>The retrying caller\<close>

lemma funpow_snd_shift:
  "((\<lambda>w. snd (f w)) ^^ j) (snd (f w)) = snd (f (((\<lambda>w. snd (f w)) ^^ j) w))"
  by (induction j) simp_all

lemma time_sleep_accepted:
  "0 \<le> secs \<Longrightarrow> secs < sleep_limit \<Longrightarrow>
     time_sleep secs s = (Inr (), s\<lparr>log := log s @ [Slept secs]\<rparr>)"
  by (simp add: time_sleep_def sleep_limit_def)

lemma time_sleep_refused:
  "\<not> (0 \<le> secs \<and> secs < sleep_limit) \<Longrightarrow> \<exists>e. time_sleep secs s = (Inl e, s)"
  by (auto simp: time_sleep_def)

lemma call_endpoint_loop_always_fails:
  fixes f :: "('w, 'r) remote"
  assumes fails: "\<And>w. isl (fst (f w))" and sl: "0 \<le> sleep p" "sleep p < sleep_limit"
  shows "k = nat (retries p + 1 - n) \<Longrightarrow>
     call_endpoint_loop p (invoke ep f) exc n s =
       ((case k of
           0 \<Rightarrow> (case exc of
                  None \<Rightarrow> Inl (TypeError ''exceptions must derive from BaseException'')
                | Some e \<Rightarrow> Inl e)
         | Suc j \<Rightarrow> fst (f (((\<lambda>w. snd (f w)) ^^ j) (world s)))),
        s\<lparr>world := ((\<lambda>w. snd (f w)) ^^ k) (world s),
          log := log s @ concat (replicate k [Invoked ep False, Slept (sleep p)])\<rparr>)"
proof (induction k arbitrary: n exc s)
  case 0
  then have "\<not> n \<le> retries p" by simp
  then show ?case by (subst call_endpoint_loop.simps) (simp split: option.splits)
next
  case (Suc k)
  then have le: "n \<le> retries p" and k: "k = nat (retries p + 1 - (n + 1))" by simp_all
  obtain e where e: "fst (f (world s)) = Inl e"
    using fails[of "world s"] by (cases "fst (f (world s))") auto
  define s1 where "s1 = s\<lparr>world := snd (f (world s)), log := log s @ [Invoked ep False]\<rparr>"
  define s2 where "s2 = s1\<lparr>log := log s1 @ [Slept (sleep p)]\<rparr>"
  have inv: "invoke ep f s = (Inl e, s1)"
    using e by (cases "f (world s)") (simp add: invoke_def s1_def)
  have sl2: "time_sleep (sleep p) s1 = (Inr (), s2)"
    using sl by (simp add: time_sleep_accepted s2_def)
  have step: "call_endpoint_loop p (invoke ep f) exc n s =
      call_endpoint_loop p (invoke ep f) (Some e) (n + 1) s2"
    using le inv sl2 by (subst call_endpoint_loop.simps) simp
  have w2: "world s2 = snd (f (world s))"
    and l2: "log s2 = log s @ [Invoked ep False, Slept (sleep p)]"
    by (simp_all add: s2_def s1_def)
  show ?case
    unfolding step Suc.IH[OF k, of "Some e" s2]
    using e by (cases k) (simp_all add: w2 l2 s2_def s1_def funpow_snd_shift)
qed

lemma sleeps_append [simp]: "sleeps (xs @ ys) = sleeps xs @ sleeps ys"
  by (simp add: sleeps_def)

lemma invocations_append [simp]: "invocations (xs @ ys) = invocations xs @ invocations ys"
  by (simp add: invocations_def)

lemma completed_append [simp]: "completed (xs @ ys) = completed xs @ completed ys"
  by (simp add: completed_def)

lemma sleeps_rounds: "sleeps (concat (replicate k [Invoked ep False, Slept d])) = replicate k d"
  by (induction k) (simp_all add: sleeps_def)

lemma invocations_rounds:
  "invocations (concat (replicate k [Invoked ep False, Slept d])) = replicate k ep"
  by (induction k) (simp_all add: invocations_def)

text \<open>What any call leaves in the log: invocations of its endpoint only, at most
  \<^verbatim>\<open>retries\<close> of them, of which only one can have returned, and at most as many
  sleeps.\<close>

lemma call_endpoint_loop_log:
  fixes f :: "('w, 'r) remote"
  shows "\<exists>evs. log (snd (call_endpoint_loop p (invoke ep f) exc n s)) = log s @ evs
       \<and> set (invocations evs) \<subseteq> {ep}
       \<and> completed evs = (if isl (fst (call_endpoint_loop p (invoke ep f) exc n s)) then [] else [ep])
       \<and> set (sleeps evs) \<subseteq> {sleep p}
       \<and> int (length (sleeps evs)) \<le> max 0 (retries p + 1 - n)
       \<and> int (length (invocations evs)) \<le> max 0 (retries p + 1 - n)"
proof (induction p "invoke ep f :: 'w st \<Rightarrow> (exn + 'r) \<times> 'w st" exc n s rule: call_endpoint_loop.induct)
  case (1 p exc n s)
  show ?case
  proof (cases "n \<le> retries p")
    case False
    then show ?thesis
      by (subst (1 2) call_endpoint_loop.simps) (simp add: invocations_def completed_def sleeps_def split: option.splits)
  next
    case le: True
    obtain r w' where f: "f (world s) = (r, w')" by (cases "f (world s)")
    define s1 where "s1 = s\<lparr>world := w', log := log s @ [Invoked ep (\<not> isl r)]\<rparr>"
    have inv: "invoke ep f s = (r, s1)" by (simp add: invoke_def f s1_def)
    show ?thesis
    proof (cases r)
      case (Inr ret)
      then have "call_endpoint_loop p (invoke ep f) exc n s = (Inr ret, s1)"
        using le inv by (subst call_endpoint_loop.simps) simp
      then show ?thesis using Inr le
        by (simp add: s1_def invocations_def completed_def sleeps_def)
    next
      case (Inl e)
      show ?thesis
      proof (cases "0 \<le> sleep p \<and> sleep p < sleep_limit")
        case False
        then obtain e' where "time_sleep (sleep p) s1 = (Inl e', s1)"
          using time_sleep_refused by blast
        then have "call_endpoint_loop p (invoke ep f) exc n s = (Inl e', s1)"
          using le inv Inl by (subst call_endpoint_loop.simps) simp
        then show ?thesis using Inl le
          by (simp add: s1_def invocations_def completed_def sleeps_def)
      next
        case True
        define s2 where "s2 = s1\<lparr>log := log s1 @ [Slept (sleep p)]\<rparr>"
        have sl: "time_sleep (sleep p) s1 = (Inr (), s2)"
          using True by (simp add: time_sleep_accepted s2_def)
        have step: "call_endpoint_loop p (invoke ep f) exc n s =
           call_endpoint_loop p (invoke ep f) (Some e) (n + 1) s2"
          using le inv Inl sl by (subst call_endpoint_loop.simps) simp
        from 1[OF le inv[symmetric] Inl sl[symmetric] refl]
        obtain evs where evs: "log (snd (call_endpoint_loop p (invoke ep f) (Some e) (n + 1) s2)) = log s2 @ evs"
          "set (invocations evs) \<subseteq> {ep}"
          "completed evs = (if isl (fst (call_endpoint_loop p (invoke ep f) (Some e) (n + 1) s2)) then [] else [ep])"
          "set (sleeps evs) \<subseteq> {sleep p}"
          "int (length (sleeps evs)) \<le> max 0 (retries p + 1 - (n + 1))"
          "int (length (invocations evs)) \<le> max 0 (retries p + 1 - (n + 1))"
          by auto
        have l2: "log s2 = log s @ [Invoked ep False, Slept (sleep p)]"
          using Inl by (simp add: s2_def s1_def)
        show ?thesis
          unfolding step
          apply (rule exI[of _ "[Invoked ep False, Slept (sleep p)] @ evs"])
          using evs le by (simp add: l2 invocations_def completed_def sleeps_def)
      qed
    qed
  qed
qed

text \<open>With \<^verbatim>\<open>retries\<close> below one the loop body never runs: nothing is invoked and
  the final \<^verbatim>\<open>raise\<close> finds no exception to raise.\<close>

lemma call_endpoint_no_attempt:
  "retries p < 1 \<Longrightarrow>
     call_endpoint p endpoint s =
       (Inl (TypeError ''exceptions must derive from BaseException''), s)"
  unfolding call_endpoint_def by (subst call_endpoint_loop.simps) simp

lemma call_endpoint_log:
  fixes f :: "('w, 'r) remote"
  shows "\<exists>evs. log (snd (call_endpoint p (invoke ep f) s)) = log s @ evs
       \<and> set (invocations evs) \<subseteq> {ep}
       \<and> completed evs = (if isl (fst (call_endpoint p (invoke ep f) s)) then [] else [ep])
       \<and> set (sleeps evs) \<subseteq> {sleep p}
       \<and> int (length (sleeps evs)) \<le> max 0 (retries p)
       \<and> int (length (invocations evs)) \<le> max 0 (retries p)"
  using call_endpoint_loop_log[of p ep f None 1 s] by (simp add: call_endpoint_def)

text \<open>The handler sleeps after every failed attempt, the last one included, before the
  loop condition is tested again: an operation that fails on every attempt is followed by
  as many sleeps as attempts, and no operation makes the caller sleep more often.\<close>

lemma call_endpoint_sleeps_each_failure:
  fixes f :: "('w, 'r) remote"
  shows "(\<exists>k \<le> nat (retries p).
            sleeps (log (snd (call_endpoint p (invoke ep f) s))) =
              sleeps (log s) @ replicate k (sleep p))
       \<and> ((\<forall>w. isl (fst (f w))) \<and> 0 \<le> sleep p \<and> sleep p < sleep_limit \<longrightarrow>
            sleeps (log (snd (call_endpoint p (invoke ep f) s))) =
              sleeps (log s) @ replicate (nat (retries p)) (sleep p))"
proof (intro conjI impI)
  obtain evs where evs: "log (snd (call_endpoint p (invoke ep f) s)) = log s @ evs"
      "set (sleeps evs) \<subseteq> {sleep p}" "int (length (sleeps evs)) \<le> max 0 (retries p)"
    using call_endpoint_log[of p ep f s] by blast
  have "sleeps evs = replicate (length (sleeps evs)) (sleep p)"
    using evs(2) by (metis replicate_length_same singletonD subsetD)
  moreover have "length (sleeps evs) \<le> nat (retries p)" using evs(3) by linarith
  ultimately show "\<exists>k \<le> nat (retries p).
            sleeps (log (snd (call_endpoint p (invoke ep f) s))) =
              sleeps (log s) @ replicate k (sleep p)"
    using evs(1) by auto
next
  assume a: "(\<forall>w. isl (fst (f w))) \<and> 0 \<le> sleep p \<and> sleep p < sleep_limit"
  have "nat (retries p) = nat (retries p + 1 - 1)" by simp
  from call_endpoint_loop_always_fails[of f p _ 1 ep None s, OF _ _ _ this] a
  show "sleeps (log (snd (call_endpoint p (invoke ep f) s))) =
              sleeps (log s) @ replicate (nat (retries p)) (sleep p)"
    by (simp add: call_endpoint_def sleeps_rounds)
qed

text \<open>
  C4.  The claim, like the documentation of every module (\<^verbatim>\<open>sleep\<close>: "Number of
  seconds to sleep between API retries"), has \<open>n - 1\<close> sleeps for \<open>n\<close> failing attempts:
  two for \<^verbatim>\<open>retries = 3\<close>.  The code does not do that.  With \<^verbatim>\<open>retries = 3\<close>,
  \<^verbatim>\<open>sleep = 5\<close> and an operation that raises on every attempt, \<^verbatim>\<open>call_endpoint\<close>
  raises after three sleeps of five seconds: the third follows the last attempt and only
  delays the exception.
\<close>

theorem call_endpoint_sleeps_after_last_attempt:
  "isl (fst (call_endpoint \<lparr>retries = 3, sleep = 5\<rparr>
               (invoke Workspaces_list_all always_failing) start))
   \<and> log (snd (call_endpoint \<lparr>retries = 3, sleep = 5\<rparr>
                 (invoke Workspaces_list_all always_failing) start)) =
       [Invoked Workspaces_list_all False, Slept 5,
        Invoked Workspaces_list_all False, Slept 5,
        Invoked Workspaces_list_all False, Slept 5]
   \<and> sleeps (log (snd (call_endpoint \<lparr>retries = 3, sleep = 5\<rparr>
                          (invoke Workspaces_list_all always_failing) start))) = [5, 5, 5]
   \<and> length (sleeps (log (snd (call_endpoint \<lparr>retries = 3, sleep = 5\<rparr>
                          (invoke Workspaces_list_all always_failing) start)))) \<noteq> 3 - 1"
  by code_simp

text \<open>
  C5, as the code has it.  Given an operation that raises on every attempt,
  \<^verbatim>\<open>call_endpoint\<close> with \<^verbatim>\<open>retries = n\<close>, where \<open>n \<ge> 1\<close>, and with a sleep length
  that \<^verbatim>\<open>time.sleep\<close> accepts, invokes the operation exactly \<open>n\<close> times and raises
  what the last invocation raised, as it is.
\<close>

theorem call_endpoint_exhausted_reraises_last:
  fixes f :: "('w, 'r) remote"
  assumes "\<And>w. isl (fst (f w))" and "1 \<le> retries p"
    and "0 \<le> sleep p" and "sleep p < sleep_limit"
  shows "fst (call_endpoint p (invoke ep f) s) =
           fst (f (((\<lambda>w. snd (f w)) ^^ (nat (retries p) - 1)) (world s)))
       \<and> invocations (log (snd (call_endpoint p (invoke ep f) s))) =
           invocations (log s) @ replicate (nat (retries p)) ep"
proof -
  obtain j where j: "nat (retries p + 1 - 1) = Suc j"
    using assms(2) by (cases "nat (retries p + 1 - 1)") auto
  have "nat (retries p) = nat (retries p + 1 - 1)" by simp
  from call_endpoint_loop_always_fails[of f p _ 1 ep None s, OF assms(1) assms(3) assms(4) this]
  have "call_endpoint p (invoke ep f) s =
      (fst (f (((\<lambda>w. snd (f w)) ^^ j) (world s))),
       s\<lparr>world := ((\<lambda>w. snd (f w)) ^^ Suc j) (world s),
         log := log s @ concat (replicate (Suc j) [Invoked ep False, Slept (sleep p)])\<rparr>)"
    using j by (simp add: call_endpoint_def)
  moreover have "nat (retries p) - 1 = j" "nat (retries p) = Suc j" using j by simp_all
  ultimately show ?thesis
    by (simp add: invocations_rounds del: replicate.simps concat.simps)
qed

theorem call_endpoint_exhausted_reraises_last_witness:
  "(\<forall>w. isl (fst (failing_nth w))) \<and> (1::int) \<le> 3 \<and> (0::int) \<le> 5 \<and> 5 < sleep_limit
   \<and> fst (call_endpoint \<lparr>retries = 3, sleep = 5\<rparr> (invoke Orgs_list failing_nth)
            \<lparr>world = 0, log = []\<rparr>) = Inl (ApiError ''!!'')
   \<and> invocations (log (snd (call_endpoint \<lparr>retries = 3, sleep = 5\<rparr>
            (invoke Orgs_list failing_nth) \<lparr>world = 0, log = []\<rparr>))) =
        [Orgs_list, Orgs_list, Orgs_list]"
  using call_endpoint_exhausted_reraises_last
          [of failing_nth "\<lparr>retries = 3, sleep = 5\<rparr>" Orgs_list "\<lparr>world = 0, log = []\<rparr>"]
  by (simp add: failing_nth_def invocations_def sleep_limit_def numeral_3_eq_3 numeral_2_eq_2)

text \<open>C5 as stated fails for a sleep length that \<^verbatim>\<open>time.sleep\<close> refuses and for
  \<^verbatim>\<open>retries\<close> below one.  With \<^verbatim>\<open>retries = 3\<close> and \<^verbatim>\<open>sleep = -1\<close> the operation is
  invoked once and the \<^verbatim>\<open>ValueError\<close> of \<^verbatim>\<open>time.sleep\<close> is raised, not the error of
  the operation; with \<^verbatim>\<open>retries = 0\<close> the operation is not invoked and a
  \<^verbatim>\<open>TypeError\<close> is raised.\<close>

theorem call_endpoint_refused_sleep_counterexample:
  "call_endpoint \<lparr>retries = 3, sleep = - 1\<rparr> (invoke Orgs_list failing_nth)
     \<lparr>world = 0, log = []\<rparr> =
     (Inl (ValueError ''sleep length must be non-negative''),
      \<lparr>world = 1, log = [Invoked Orgs_list False]\<rparr>)
   \<and> call_endpoint \<lparr>retries = 0, sleep = 5\<rparr> (invoke Orgs_list failing_nth)
       \<lparr>world = 0, log = []\<rparr> =
       (Inl (TypeError ''exceptions must derive from BaseException''),
        \<lparr>world = 0, log = []\<rparr>)"
  by code_simp

section \<open>Properties of the modules\<close>

subsection \<open>What a run adds to the log\<close>

lemma reads_only_Nil [simp]: "reads_only []"
  by (simp add: reads_only_def invocations_def)

lemma reads_only_append [simp]: "reads_only (a @ b) \<longleftrightarrow> reads_only a \<and> reads_only b"
  by (simp add: reads_only_def)

lemma emitsI: "(\<And>s. \<exists>evs. log (snd (m s)) = log s @ evs \<and> P evs) \<Longrightarrow> emits m P"
  by (simp add: emits_def)

lemma emitsD: "emits m P \<Longrightarrow> \<exists>evs. log (snd (m s)) = log s @ evs \<and> P evs"
  by (simp add: emits_def)

lemma emits_weaken: "emits m P \<Longrightarrow> (\<And>evs. P evs \<Longrightarrow> Q evs) \<Longrightarrow> emits m Q"
  unfolding emits_def by blast

lemma emits_returnS: "P [] \<Longrightarrow> emits (returnS x) P"
  by (simp add: emits_def returnS_def)

lemma emits_fail_json: "P [] \<Longrightarrow> emits (fail_json msg) P"
  by (simp add: emits_def fail_json_def)

lemma emits_pure_py: "P [] \<Longrightarrow> emits (pure_py m) P"
  by (simp add: emits_def pure_py_def split: sum.splits)

lemma emits_bindS:
  assumes m: "emits m P" and f: "\<And>x. emits (f x) Q"
    and stop: "\<And>a. P a \<Longrightarrow> R a" and seq: "\<And>a b. P a \<Longrightarrow> Q b \<Longrightarrow> R (a @ b)"
  shows "emits (bindS m f) R"
proof (rule emitsI)
  fix s
  obtain r s' where ms: "m s = (r, s')" by (cases "m s")
  obtain a where a: "log s' = log s @ a" "P a" using emitsD[OF m, of s] ms by auto
  show "\<exists>evs. log (snd (bindS m f s)) = log s @ evs \<and> R evs"
  proof (cases r)
    case (Inl e)
    then have "bindS m f s = (Inl e, s')" by (simp add: bindS_def ms)
    then show ?thesis using a stop by auto
  next
    case (Inr x)
    then have b: "bindS m f s = f x s'" by (simp add: bindS_def ms)
    obtain c where c: "log (snd (f x s')) = log s' @ c" "Q c" using emitsD[OF f, of x s'] by auto
    show ?thesis unfolding b using a c seq by auto
  qed
qed

lemma emits_try_except:
  assumes m: "emits body P" and h: "\<And>e. emits (handler e) Q"
    and stop: "\<And>a. P a \<Longrightarrow> R a" and seq: "\<And>a b. P a \<Longrightarrow> Q b \<Longrightarrow> R (a @ b)"
  shows "emits (try_except body handler) R"
proof (rule emitsI)
  fix s
  obtain r s' where ms: "body s = (r, s')" by (cases "body s")
  obtain a where a: "log s' = log s @ a" "P a" using emitsD[OF m, of s] ms by auto
  show "\<exists>evs. log (snd (try_except body handler s)) = log s @ evs \<and> R evs"
  proof (cases r)
    case (Inr x)
    then have "try_except body handler s = (Inr x, s')" by (simp add: try_except_def ms)
    then show ?thesis using a stop by auto
  next
    case (Inl e)
    then have b: "try_except body handler s = handler e s'" by (simp add: try_except_def ms)
    obtain c where c: "log (snd (handler e s')) = log s' @ c" "Q c"
      using emitsD[OF h, of e s'] by auto
    show ?thesis unfolding b using a c seq by auto
  qed
qed

lemma emits_unguarded: "emits body P \<Longrightarrow> emits (unguarded body) P"
  unfolding emits_def unguarded_def
  by (auto split: prod.splits sum.splits) (metis snd_conv)+


lemma effects_Nil [simp]: "effects [] = []"
  by (simp add: effects_def completed_def)

lemma effects_append [simp]: "effects (a @ b) = effects a @ effects b"
  by (simp add: effects_def completed_def)

lemma set_returned_called: "set (returned e) \<subseteq> set (called e)"
  by (cases e) auto

lemma reads_only_effects: "reads_only evs \<Longrightarrow> effects evs = []"
proof -
  assume "reads_only evs"
  then have "\<forall>ep \<in> set (invocations evs). \<not> mutating ep"
    by (simp add: reads_only_def filter_empty_conv)
  moreover have "set (completed evs) \<subseteq> set (invocations evs)"
    using set_returned_called by (fastforce simp: completed_def invocations_def)
  ultimately show ?thesis by (auto simp: effects_def filter_empty_conv)
qed

lemma emits_call:
  "emits (call_endpoint p (invoke ep f))
     (\<lambda>evs. set (invocations evs) \<subseteq> {ep} \<and> (completed evs = [] \<or> completed evs = [ep]))"
proof (rule emitsI)
  fix s
  obtain evs where "log (snd (call_endpoint p (invoke ep f) s)) = log s @ evs"
    "set (invocations evs) \<subseteq> {ep}"
    "completed evs = (if isl (fst (call_endpoint p (invoke ep f) s)) then [] else [ep])"
    using call_endpoint_log[of p ep f s] by blast
  then show "\<exists>evs. log (snd (call_endpoint p (invoke ep f) s)) = log s @ evs \<and>
       set (invocations evs) \<subseteq> {ep} \<and> (completed evs = [] \<or> completed evs = [ep])"
    by (intro exI[of _ evs]) (simp split: if_splits)
qed

lemma ro_call: "\<not> mutating ep \<Longrightarrow> emits (call_endpoint p (invoke ep f)) reads_only"
  by (rule emits_weaken[OF emits_call]) (auto simp: reads_only_def filter_empty_conv)

lemma effect_call:
  "emits (call_endpoint p (invoke ep f)) (\<lambda>evs. effects evs = [] \<or> effects evs = [ep])"
  by (rule emits_weaken[OF emits_call]) (auto simp: effects_def)

lemma ro_returnS: "emits (returnS x) reads_only"
  by (rule emits_returnS) simp

lemma ro_fail_json: "emits (fail_json msg) reads_only"
  by (rule emits_fail_json) simp

lemma ro_pure_py: "emits (pure_py m) reads_only"
  by (rule emits_pure_py) simp

lemma ro_bindS:
  "emits m reads_only \<Longrightarrow> (\<And>x. emits (f x) reads_only) \<Longrightarrow> emits (bindS m f) reads_only"
  by (rule emits_bindS[where P = reads_only and Q = reads_only]) simp_all

lemma ro_try_except:
  "emits body reads_only \<Longrightarrow> (\<And>e. emits (handler e) reads_only)
     \<Longrightarrow> emits (try_except body handler) reads_only"
  by (rule emits_try_except[where P = reads_only and Q = reads_only]) simp_all

lemma ro_required_if: "emits (required_if c g msg) reads_only"
  by (simp add: required_if_def ro_fail_json ro_returnS)



lemmas ro_rules = ro_returnS ro_fail_json ro_pure_py ro_bindS ro_try_except ro_required_if
  emits_unguarded

lemma ro_get_org_name_when_exists:
  "emits (get_org_name_when_exists api p org flag) reads_only"
proof (rule emitsI)
  fix s
  obtain r s' where c: "call_endpoint p (invoke Orgs_list (orgs_list api)) s = (r, s')"
    by (cases "call_endpoint p (invoke Orgs_list (orgs_list api)) s")
  obtain evs where evs: "log s' = log s @ evs" "reads_only evs"
    using emitsD[OF ro_call, of Orgs_list p "orgs_list api" s] c by auto
  have "log (snd (get_org_name_when_exists api p org flag s)) = log s'"
    by (cases r) (simp_all add: get_org_name_when_exists_def c fail_json_def pure_py_def split: sum.splits)
  then show "\<exists>evs. log (snd (get_org_name_when_exists api p org flag s)) = log s @ evs \<and> reads_only evs"
    using evs by auto
qed

lemma ro_workspace_required_if: "emits (workspace_required_if p) reads_only"
  unfolding workspace_required_if_def by (intro ro_rules)

lemma ro_resolve_workspace_id: "emits (resolve_workspace_id p org data) reads_only"
  unfolding resolve_workspace_id_def
  by (auto intro!: ro_rules split: option.splits)




lemma ro_resolve_ssh_key_id: "emits (resolve_ssh_key_id key org keys) reads_only"
  unfolding resolve_ssh_key_id_def
  by (auto intro!: ro_rules)





subsection \<open>The mutating calls a run can complete\<close>

lemma eff_of_ro: "emits m reads_only \<Longrightarrow> [] \<in> L \<Longrightarrow> emits m (effects_in L)"
  by (erule emits_weaken) (simp add: reads_only_effects effects_in_def)

lemma eff_bindS:
  assumes "emits m (effects_in A)" and "\<And>x. emits (f x) (effects_in B)"
    and "A \<subseteq> C" and "\<And>a b. a \<in> A \<Longrightarrow> b \<in> B \<Longrightarrow> a @ b \<in> C"
  shows "emits (bindS m f) (effects_in C)"
  by (rule emits_bindS[OF assms(1) assms(2)]) (use assms(3,4) in \<open>auto simp: effects_in_def\<close>)

lemma eff_ro_bindS:
  assumes "emits m reads_only" and "\<And>x. emits (f x) (effects_in L)" and "[] \<in> L"
  shows "emits (bindS m f) (effects_in L)"
  by (rule eff_bindS[OF eff_of_ro[OF assms(1), of "{[]}"] assms(2)]) (use assms(3) in auto)

lemma eff_returnS: "[] \<in> L \<Longrightarrow> emits (returnS x) (effects_in L)"
  by (rule emits_returnS) (simp add: effects_in_def)

lemma eff_fail_json: "[] \<in> L \<Longrightarrow> emits (fail_json x) (effects_in L)"
  by (rule emits_fail_json) (simp add: effects_in_def)

lemma eff_mono: "emits m (effects_in A) \<Longrightarrow> A \<subseteq> B \<Longrightarrow> emits m (effects_in B)"
  by (erule emits_weaken) (auto simp: effects_in_def)

lemma eff_if:
  "(c \<Longrightarrow> emits a (effects_in L)) \<Longrightarrow> (\<not> c \<Longrightarrow> emits b (effects_in L))
     \<Longrightarrow> emits (if c then a else b) (effects_in L)"
  by simp

lemma eff_act: "emits (act p (invoke ep f) msg result) (effects_in {[], [ep]})"
proof -
  have "emits (call_endpoint p (invoke ep f)) (effects_in {[], [ep]})"
    by (rule emits_weaken[OF effect_call]) (auto simp: effects_in_def)
  then have c: "emits (try_except (call_endpoint p (invoke ep f)) (\<lambda>e. fail_json (msg e)))
            (effects_in {[], [ep]})"
    by (rule emits_try_except[where Q = "effects_in {[]}"])
       (auto intro: eff_fail_json simp: effects_in_def)
  have "emits (if \<not> check_mode p
            then bindS (try_except (call_endpoint p (invoke ep f)) (\<lambda>e. fail_json (msg e)))
                   (\<lambda>response. returnS (result\<lparr>json := response\<rparr>))
            else returnS result) (effects_in {[], [ep]})"
    by (intro eff_if eff_returnS eff_bindS[OF c, where B = "{[]}"]) auto
  then show ?thesis
    unfolding act_def by (rule eff_bindS[where B = "{[]}"]) (auto intro!: eff_returnS)
qed

lemma eff_destroy_workspace:
  "emits (destroy_workspace api p org wid result) (effects_in {[], [Workspaces_destroy]})"
  unfolding destroy_workspace_def
  by (cases wid) (simp_all add: eff_returnS eff_act)

lemma eff_create_workspace:
  "emits (create_workspace api p org wid result) (effects_in {[], [Workspaces_create]})"
  unfolding create_workspace_def
  by (intro eff_if eff_returnS eff_act eff_ro_bindS ro_pure_py eff_fail_json) simp_all

lemma eff_update_attributes:
  "emits (update_attributes api p org data wid result) (effects_in {[], [Workspaces_update]})"
  unfolding update_attributes_def
  by (cases "attributes p")
     (auto intro!: eff_if eff_returnS eff_act eff_ro_bindS ro_pure_py)

lemma eff_update_lock:
  "emits (update_lock api p org data wid result)
     (effects_in {[], [Workspaces_lock], [Workspaces_unlock]})"
proof (cases "locked p")
  case None
  then show ?thesis by (simp add: update_lock_def eff_returnS)
next
  case (Some lck)
  show ?thesis
    unfolding update_lock_def Some option.case
  proof (rule eff_ro_bindS[OF ro_pure_py])
    fix cl
    show "emits (bindS (if lck \<and> \<not> truthy cl
                 then act p (invoke Workspaces_lock
                               (workspaces_lock api wid
                                  (PDict [(''reason'', PStr (case lock_reason p of None \<Rightarrow> [] | Some r \<Rightarrow> r))])))
                        (unable ''lock'' (workspace p) org) result
                 else returnS result) (\<lambda>result.
          if \<not> lck \<and> truthy cl
          then act p (invoke Workspaces_unlock (workspaces_unlock api wid))
                 (unable ''unlock'' (workspace p) org) result
          else returnS result))
       (effects_in {[], [Workspaces_lock], [Workspaces_unlock]})"
    proof (cases "lck \<and> \<not> truthy cl")
      case True
      then show ?thesis
        by (auto intro!: eff_bindS[OF eff_act, where B = "{[]}"] eff_returnS)
    next
      case False
      then show ?thesis
        by (auto intro!: eff_bindS[OF eff_returnS, where A = "{[]}" and B = "{[], [Workspaces_unlock]}"]
            eff_act eff_returnS eff_if)
    qed
  qed simp
qed

lemma eff_update_ssh_key:
  "emits (update_ssh_key api p org data wid result)
     (effects_in {[], [Workspaces_assign_ssh_key], [Workspaces_unassign_ssh_key]})"
proof (cases "ssh_key p")
  case None
  then show ?thesis by (simp add: update_ssh_key_def eff_returnS)
next
  case (Some key)
  show ?thesis
    unfolding update_ssh_key_def Some option.case
    apply (rule eff_ro_bindS[OF ro_try_except[OF ro_call ro_fail_json]])
      apply simp
     apply (rule eff_ro_bindS[OF ro_resolve_ssh_key_id])
      apply (rule eff_ro_bindS[OF ro_pure_py])
    subgoal for keys ssh_key_id current
    proof (cases "ssh_key_id = None")
      case True
      then show ?thesis
        by (auto intro!: eff_bindS[OF eff_returnS, where A = "{[]}" and B = "{[], [Workspaces_unassign_ssh_key]}"]
            eff_act eff_returnS eff_if)
    next
      case False
      then show ?thesis
        by (auto intro!: eff_bindS[where A = "{[], [Workspaces_assign_ssh_key]}" and B = "{[]}"]
            eff_act eff_returnS eff_if)
    qed
    by simp_all
qed

lemma eff_update_workspace:
  "emits (update_workspace api p org data workspace_id result) (effects_in (set update_effects))"
proof (cases "state p = Present \<and> workspace_id \<noteq> None")
  case False
  then have "update_workspace api p org data workspace_id result = returnS result"
    by (auto simp: update_workspace_def split: option.splits)
  then show ?thesis by (simp add: eff_returnS update_effects_def)
next
  case True
  then obtain wid where wid: "workspace_id = Some wid" by auto
  have tail: "emits (bindS (update_lock api p org data wid r) (\<lambda>result.
               update_ssh_key api p org data wid result))
        (effects_in {b @ c | b c. b \<in> {[], [Workspaces_lock], [Workspaces_unlock]}
                   \<and> c \<in> {[], [Workspaces_assign_ssh_key], [Workspaces_unassign_ssh_key]}})" for r
    by (rule eff_bindS[OF eff_update_lock eff_update_ssh_key]) auto
  have "emits (bindS (update_attributes api p org data wid result) (\<lambda>result.
               bindS (update_lock api p org data wid result) (\<lambda>result.
               update_ssh_key api p org data wid result))) (effects_in (set update_effects))"
    by (rule eff_bindS[OF eff_update_attributes tail]) (auto simp: update_effects_def)
  then show ?thesis using True wid by (simp add: update_workspace_def)
qed

lemma bindS_returnS [simp]: "bindS (returnS x) f = f x"
  by (rule ext) (simp add: bindS_def returnS_def)

lemma bindS_returnS_right [simp]: "bindS m returnS = m"
  by (rule ext) (auto simp: bindS_def returnS_def split: prod.splits sum.splits)

lemma eff_tfe_workspace_main:
  "emits (tfe_workspace_main api p) (effects_in (set workspace_effects))"
proof -
  have nil: "[] \<in> set workspace_effects" by (simp add: workspace_effects_def update_effects_def)
  have tail: "emits (bindS (destroy_workspace api p org workspace_id result) (\<lambda>result.
     bindS (update_workspace api p org data workspace_id result) (\<lambda>result.
     create_workspace api p org workspace_id result))) (effects_in (set workspace_effects))"
    for org workspace_id result data
  proof (cases "state p")
    case Absent
    then have u: "update_workspace api p org data workspace_id = returnS"
      and c: "create_workspace api p org workspace_id = returnS"
      by (auto simp: update_workspace_def create_workspace_def split: option.splits)
    show ?thesis unfolding u c
      by (simp, rule eff_mono[OF eff_destroy_workspace]) (simp add: workspace_effects_def update_effects_def)
  next
    case Present
    then have d: "destroy_workspace api p org workspace_id = returnS"
      by (auto simp: destroy_workspace_def split: option.splits)
    show ?thesis
    proof (cases workspace_id)
      case None
      then have u: "update_workspace api p org data workspace_id = returnS"
        by (auto simp: update_workspace_def)
      show ?thesis unfolding d u
        by (simp, rule eff_mono[OF eff_create_workspace])
           (simp add: workspace_effects_def update_effects_def)
    next
      case (Some wid)
      then have c: "create_workspace api p org workspace_id = returnS"
        by (auto simp: create_workspace_def)
      show ?thesis unfolding d c
        by (simp, rule eff_mono[OF eff_update_workspace]) (auto simp: workspace_effects_def)
    qed
  qed
  show ?thesis
    unfolding tfe_workspace_main_def
    apply (rule eff_ro_bindS[OF ro_workspace_required_if])
     apply (rule eff_ro_bindS[OF ro_get_org_name_when_exists])
      apply (simp only: bindS_returnS)
      apply (rule eff_ro_bindS[OF ro_try_except[OF ro_call ro_fail_json]])
        apply simp
       apply (rule eff_ro_bindS[OF ro_try_except[OF ro_call ro_fail_json]])
         apply simp
        apply (rule eff_ro_bindS[OF ro_resolve_workspace_id])
         apply (rule tail)
        apply (simp_all add: nil)
    done
qed

subsection \<open>Check mode and the number of mutating calls\<close>

lemma ro_vcs_required_if: "emits (vcs_required_if p) reads_only"
  unfolding vcs_required_if_def by (intro ro_rules)

lemma ro_resolve_client_id: "emits (resolve_client_id p org data) reads_only"
  unfolding resolve_client_id_def
  by (auto intro!: ro_rules simp: Let_def split: option.splits)









text \<open>The same bounds for the mutating requests that were sent, whether they returned
  or not, and for \<^verbatim>\<open>tfe_vcs_connection\<close>.\<close>

lemma attempted_Nil [simp]: "attempted [] = []"
  by (simp add: attempted_def invocations_def)

lemma attempted_append [simp]: "attempted (a @ b) = attempted a @ attempted b"
  by (simp add: attempted_def)

lemma reads_only_attempted: "reads_only evs \<longleftrightarrow> attempted evs = []"
  by (simp add: reads_only_def attempted_def)

lemma calls_inI:
  "eps \<in> L \<Longrightarrow> length ks = length eps \<Longrightarrow> list_all (\<lambda>k. 0 < k \<and> int k \<le> n) ks
     \<Longrightarrow> attempted evs = concat (map2 replicate ks eps) \<Longrightarrow> calls_in n L evs"
  unfolding calls_in_def by blast

lemma calls_in_Nil: "[] \<in> L \<Longrightarrow> attempted evs = [] \<Longrightarrow> calls_in n L evs"
  by (rule calls_inI[of "[]" L "[]"]) simp_all

lemma calls_in_append:
  assumes a: "calls_in n A a" and b: "calls_in n B b"
    and C: "\<And>x y. x \<in> A \<Longrightarrow> y \<in> B \<Longrightarrow> x @ y \<in> C"
  shows "calls_in n C (a @ b)"
proof -
  obtain e1 k1 where 1: "e1 \<in> A" "length k1 = length e1"
      "list_all (\<lambda>k. 0 < k \<and> int k \<le> n) k1" "attempted a = concat (map2 replicate k1 e1)"
    using a unfolding calls_in_def by blast
  obtain e2 k2 where 2: "e2 \<in> B" "length k2 = length e2"
      "list_all (\<lambda>k. 0 < k \<and> int k \<le> n) k2" "attempted b = concat (map2 replicate k2 e2)"
    using b unfolding calls_in_def by blast
  show ?thesis
    by (rule calls_inI[of "e1 @ e2" C "k1 @ k2"]) (use 1 2 C in simp_all)
qed

lemma ci_of_ro: "emits m reads_only \<Longrightarrow> [] \<in> L \<Longrightarrow> emits m (calls_in n L)"
  by (erule emits_weaken) (simp add: reads_only_attempted calls_in_Nil)

lemma ci_bindS:
  assumes "emits m (calls_in n A)" and "\<And>x. emits (f x) (calls_in n B)"
    and "A \<subseteq> C" and "\<And>a b. a \<in> A \<Longrightarrow> b \<in> B \<Longrightarrow> a @ b \<in> C"
  shows "emits (bindS m f) (calls_in n C)"
proof (rule emits_bindS[OF assms(1) assms(2)])
  fix a assume "calls_in n A a"
  then show "calls_in n C a"
    unfolding calls_in_def using assms(3) by blast
next
  fix a b assume "calls_in n A a" "calls_in n B b"
  then show "calls_in n C (a @ b)" by (rule calls_in_append) (rule assms(4))
qed

lemma ci_ro_bindS:
  assumes "emits m reads_only" and "\<And>x. emits (f x) (calls_in n L)" and "[] \<in> L"
  shows "emits (bindS m f) (calls_in n L)"
proof (rule emits_bindS[OF assms(1) assms(2)])
  fix a assume "reads_only a"
  then show "calls_in n L a" using assms(3) by (simp add: reads_only_attempted calls_in_Nil)
next
  fix a b assume "reads_only a" "calls_in n L b"
  then show "calls_in n L (a @ b)"
    unfolding calls_in_def by (simp add: reads_only_attempted)
qed

lemma ci_returnS: "[] \<in> L \<Longrightarrow> emits (returnS x) (calls_in n L)"
  by (rule emits_returnS) (simp add: calls_in_Nil)

lemma ci_fail_json: "[] \<in> L \<Longrightarrow> emits (fail_json x) (calls_in n L)"
  by (rule emits_fail_json) (simp add: calls_in_Nil)

lemma ci_mono: "emits m (calls_in n A) \<Longrightarrow> A \<subseteq> B \<Longrightarrow> emits m (calls_in n B)"
  by (erule emits_weaken) (auto simp: calls_in_def)

lemma ci_if:
  "(c \<Longrightarrow> emits a (calls_in n L)) \<Longrightarrow> (\<not> c \<Longrightarrow> emits b (calls_in n L))
     \<Longrightarrow> emits (if c then a else b) (calls_in n L)"
  by simp

lemma ci_call: "emits (call_endpoint p (invoke ep f)) (calls_in (retries p) {[], [ep]})"
proof (rule emitsI)
  fix s
  obtain evs where evs: "log (snd (call_endpoint p (invoke ep f) s)) = log s @ evs"
    "set (invocations evs) \<subseteq> {ep}"
    "int (length (invocations evs)) \<le> max 0 (retries p)"
    using call_endpoint_log[of p ep f s] by blast
  have rep: "invocations evs = replicate (length (invocations evs)) ep"
    using evs(2) by (metis replicate_length_same singletonD subsetD)
  have "calls_in (retries p) {[], [ep]} evs"
  proof (cases "mutating ep \<and> invocations evs \<noteq> []")
    case False
    then have "attempted evs = []"
      using evs(2) by (auto simp: attempted_def filter_empty_conv)
    then show ?thesis by (simp add: calls_in_Nil)
  next
    case True
    then have "attempted evs = invocations evs"
      using evs(2) by (auto simp: attempted_def filter_id_conv)
    then have "attempted evs = concat (map2 replicate [length (invocations evs)] [ep])"
      using rep by simp
    moreover have pos: "0 < length (invocations evs)" using True by simp
    moreover have "int (length (invocations evs)) \<le> retries p"
      using pos evs(3) by linarith
    ultimately show ?thesis
      by (intro calls_inI[of "[ep]" _ "[length (invocations evs)]"]) simp_all
  qed
  then show "\<exists>evs. log (snd (call_endpoint p (invoke ep f) s)) = log s @ evs
      \<and> calls_in (retries p) {[], [ep]} evs"
    using evs(1) by blast
qed

lemma ci_act: "emits (act p (invoke ep f) msg result) (calls_in (retries p) {[], [ep]})"
proof -
  have c: "emits (try_except (call_endpoint p (invoke ep f)) (\<lambda>e. fail_json (msg e)))
            (calls_in (retries p) {[], [ep]})"
    by (rule emits_try_except[OF ci_call, where Q = "calls_in (retries p) {[]}"])
       (auto intro: ci_fail_json calls_in_append[where A = "{[], [ep]}" and B = "{[]}"])
  have "emits (if \<not> check_mode p
            then bindS (try_except (call_endpoint p (invoke ep f)) (\<lambda>e. fail_json (msg e)))
                   (\<lambda>response. returnS (result\<lparr>json := response\<rparr>))
            else returnS result) (calls_in (retries p) {[], [ep]})"
    by (intro ci_if ci_returnS ci_bindS[OF c, where B = "{[]}"]) auto
  then show ?thesis
    unfolding act_def by (rule ci_bindS[where B = "{[]}"]) (auto intro!: ci_returnS)
qed

lemma ci_destroy_workspace:
  "emits (destroy_workspace api p org wid result) (calls_in (retries p) {[], [Workspaces_destroy]})"
  unfolding destroy_workspace_def
  by (cases wid) (simp_all add: ci_returnS ci_act)

lemma ci_create_workspace:
  "emits (create_workspace api p org wid result) (calls_in (retries p) {[], [Workspaces_create]})"
  unfolding create_workspace_def
  by (intro ci_if ci_returnS ci_act ci_ro_bindS ro_pure_py ci_fail_json) simp_all

lemma ci_update_attributes:
  "emits (update_attributes api p org data wid result) (calls_in (retries p) {[], [Workspaces_update]})"
  unfolding update_attributes_def
  by (cases "attributes p")
     (auto intro!: ci_if ci_returnS ci_act ci_ro_bindS ro_pure_py)

lemma ci_update_lock:
  "emits (update_lock api p org data wid result)
     (calls_in (retries p) {[], [Workspaces_lock], [Workspaces_unlock]})"
proof (cases "locked p")
  case None
  then show ?thesis by (simp add: update_lock_def ci_returnS)
next
  case (Some lck)
  show ?thesis
    unfolding update_lock_def Some option.case
  proof (rule ci_ro_bindS[OF ro_pure_py])
    fix cl
    show "emits (bindS (if lck \<and> \<not> truthy cl
                 then act p (invoke Workspaces_lock
                               (workspaces_lock api wid
                                  (PDict [(''reason'', PStr (case lock_reason p of None \<Rightarrow> [] | Some r \<Rightarrow> r))])))
                        (unable ''lock'' (workspace p) org) result
                 else returnS result) (\<lambda>result.
          if \<not> lck \<and> truthy cl
          then act p (invoke Workspaces_unlock (workspaces_unlock api wid))
                 (unable ''unlock'' (workspace p) org) result
          else returnS result))
       (calls_in (retries p) {[], [Workspaces_lock], [Workspaces_unlock]})"
    proof (cases "lck \<and> \<not> truthy cl")
      case True
      then show ?thesis
        by (auto simp del: bindS_returnS bindS_returnS_right intro!: ci_bindS[OF ci_act, where B = "{[]}"] ci_returnS)
    next
      case False
      then show ?thesis
        by (auto simp del: bindS_returnS bindS_returnS_right intro!: ci_bindS[OF ci_returnS, where A = "{[]}" and B = "{[], [Workspaces_unlock]}"]
            ci_act ci_returnS ci_if)
    qed
  qed simp
qed

lemma ci_update_ssh_key:
  "emits (update_ssh_key api p org data wid result)
     (calls_in (retries p) {[], [Workspaces_assign_ssh_key], [Workspaces_unassign_ssh_key]})"
proof (cases "ssh_key p")
  case None
  then show ?thesis by (simp add: update_ssh_key_def ci_returnS)
next
  case (Some key)
  show ?thesis
    unfolding update_ssh_key_def Some option.case
    apply (rule ci_ro_bindS[OF ro_try_except[OF ro_call ro_fail_json]])
      apply simp
     apply (rule ci_ro_bindS[OF ro_resolve_ssh_key_id])
      apply (rule ci_ro_bindS[OF ro_pure_py])
    subgoal for keys ssh_key_id current
    proof (cases "ssh_key_id = None")
      case True
      then show ?thesis
        by (auto simp del: bindS_returnS bindS_returnS_right intro!: ci_bindS[OF ci_returnS, where A = "{[]}" and B = "{[], [Workspaces_unassign_ssh_key]}"]
            ci_act ci_returnS ci_if)
    next
      case False
      then show ?thesis
        by (auto simp del: bindS_returnS bindS_returnS_right intro!: ci_bindS[where A = "{[], [Workspaces_assign_ssh_key]}" and B = "{[]}"]
            ci_act ci_returnS ci_if)
    qed
    by simp_all
qed

lemma ci_update_workspace:
  "emits (update_workspace api p org data workspace_id result) (calls_in (retries p) (set update_effects))"
proof (cases "state p = Present \<and> workspace_id \<noteq> None")
  case False
  then have "update_workspace api p org data workspace_id result = returnS result"
    by (auto simp: update_workspace_def split: option.splits)
  then show ?thesis by (simp add: ci_returnS update_effects_def)
next
  case True
  then obtain wid where wid: "workspace_id = Some wid" by auto
  have tail: "emits (bindS (update_lock api p org data wid r) (\<lambda>result.
               update_ssh_key api p org data wid result))
        (calls_in (retries p) {b @ c | b c. b \<in> {[], [Workspaces_lock], [Workspaces_unlock]}
                   \<and> c \<in> {[], [Workspaces_assign_ssh_key], [Workspaces_unassign_ssh_key]}})" for r
    by (rule ci_bindS[OF ci_update_lock ci_update_ssh_key]) auto
  have "emits (bindS (update_attributes api p org data wid result) (\<lambda>result.
               bindS (update_lock api p org data wid result) (\<lambda>result.
               update_ssh_key api p org data wid result))) (calls_in (retries p) (set update_effects))"
    by (rule ci_bindS[OF ci_update_attributes tail]) (auto simp: update_effects_def)
  then show ?thesis using True wid by (simp add: update_workspace_def)
qed

lemma ci_tfe_workspace_main:
  "emits (tfe_workspace_main api p) (calls_in (retries p) (set workspace_effects))"
proof -
  have nil: "[] \<in> set workspace_effects" by (simp add: workspace_effects_def update_effects_def)
  have tail: "emits (bindS (destroy_workspace api p org workspace_id result) (\<lambda>result.
     bindS (update_workspace api p org data workspace_id result) (\<lambda>result.
     create_workspace api p org workspace_id result))) (calls_in (retries p) (set workspace_effects))"
    for org workspace_id result data
  proof (cases "state p")
    case Absent
    then have u: "update_workspace api p org data workspace_id = returnS"
      and c: "create_workspace api p org workspace_id = returnS"
      by (auto simp: update_workspace_def create_workspace_def split: option.splits)
    show ?thesis unfolding u c
      by (simp, rule ci_mono[OF ci_destroy_workspace]) (simp add: workspace_effects_def update_effects_def)
  next
    case Present
    then have d: "destroy_workspace api p org workspace_id = returnS"
      by (auto simp: destroy_workspace_def split: option.splits)
    show ?thesis
    proof (cases workspace_id)
      case None
      then have u: "update_workspace api p org data workspace_id = returnS"
        by (auto simp: update_workspace_def)
      show ?thesis unfolding d u
        by (simp, rule ci_mono[OF ci_create_workspace])
           (simp add: workspace_effects_def update_effects_def)
    next
      case (Some wid)
      then have c: "create_workspace api p org workspace_id = returnS"
        by (auto simp: create_workspace_def)
      show ?thesis unfolding d c
        by (simp, rule ci_mono[OF ci_update_workspace]) (auto simp: workspace_effects_def)
    qed
  qed
  show ?thesis
    unfolding tfe_workspace_main_def
    apply (rule ci_ro_bindS[OF ro_workspace_required_if])
     apply (rule ci_ro_bindS[OF ro_get_org_name_when_exists])
      apply (simp only: bindS_returnS)
      apply (rule ci_ro_bindS[OF ro_try_except[OF ro_call ro_fail_json]])
        apply simp
       apply (rule ci_ro_bindS[OF ro_try_except[OF ro_call ro_fail_json]])
         apply simp
        apply (rule ci_ro_bindS[OF ro_resolve_workspace_id])
         apply (rule tail)
        apply (simp_all add: nil)
    done
qed


lemma ci_destroy_client:
  "emits (destroy_client api p org cid result) (calls_in (retries p) {[], [Oauth_clients_destroy]})"
  unfolding destroy_client_def
  by (cases cid) (simp_all add: ci_returnS ci_act)

lemma ci_create_client:
  "emits (create_client api p org cid result) (calls_in (retries p) {[], [Oauth_clients_create]})"
  unfolding create_client_def
  by (intro ci_if ci_returnS ci_act) simp_all

lemma ci_update_client:
  "emits (update_client api p org data cid result) (calls_in (retries p) {[], [Oauth_clients_update]})"
proof (cases "state p = Present \<and> cid \<noteq> None")
  case False
  then have "update_client api p org data cid result = returnS result"
    by (auto simp: update_client_def split: option.splits)
  then show ?thesis by (simp add: ci_returnS)
next
  case True
  then obtain c where c: "cid = Some c" by auto
  have show_client: "emits (bindS (unguarded (call_endpoint p
                (invoke Oauth_clients_show (oauth_clients_show api c))))
              (\<lambda>response. returnS (r\<lparr>json := response\<rparr>))) (calls_in (retries p) {[]})" for r
    by (intro ci_ro_bindS emits_unguarded ro_call ci_returnS) simp_all
  have change: "emits (bindS (if \<not> unchanged
                   then act p (invoke Oauth_clients_update
                                 (oauth_clients_update api c
                                    (PDict [(''data'', PDict [(''id'', PStr c),
                                       (''type'', PStr ''oauth-clients''),
                                       (''attributes'', case attributes p of None \<Rightarrow> PNone | Some a \<Rightarrow> PDict a)])])))
                          (unable_client ''update'' (client p) org) result
                   else returnS result) (\<lambda>result.
            bindS (unguarded (call_endpoint p (invoke Oauth_clients_show (oauth_clients_show api c))))
              (\<lambda>response. returnS (result\<lparr>json := response\<rparr>))))
          (calls_in (retries p) {[], [Oauth_clients_update]})" for unchanged
    by (rule ci_bindS[where A = "{[], [Oauth_clients_update]}" and B = "{[]}"])
       (auto intro!: ci_if ci_act ci_returnS show_client)
  show ?thesis
    unfolding update_client_def c option.case
    using True
    by (auto intro!: ci_ro_bindS ro_pure_py change)
qed

lemma ci_tfe_vcs_connection_main:
  "emits (tfe_vcs_connection_main api p) (calls_in (retries p) (set vcs_effects))"
proof -
  have nil: "[] \<in> set vcs_effects" by (simp add: vcs_effects_def)
  have tail: "emits (bindS (destroy_client api p org client_id result) (\<lambda>result.
     bindS (update_client api p org data client_id result) (\<lambda>result.
     create_client api p org client_id result))) (calls_in (retries p) (set vcs_effects))"
    for org client_id result data
  proof (cases "state p")
    case Absent
    then have u: "update_client api p org data client_id = returnS"
      and c: "create_client api p org client_id = returnS"
      by (auto simp: update_client_def create_client_def split: option.splits)
    show ?thesis unfolding u c
      by (simp, rule ci_mono[OF ci_destroy_client]) (simp add: vcs_effects_def)
  next
    case Present
    then have d: "destroy_client api p org client_id = returnS"
      by (auto simp: destroy_client_def split: option.splits)
    show ?thesis
    proof (cases client_id)
      case None
      then have u: "update_client api p org data client_id = returnS"
        by (auto simp: update_client_def)
      show ?thesis unfolding d u
        by (simp, rule ci_mono[OF ci_create_client]) (simp add: vcs_effects_def)
    next
      case (Some cid)
      then have c: "create_client api p org client_id = returnS"
        by (auto simp: create_client_def)
      show ?thesis unfolding d c
        by (simp, rule ci_mono[OF ci_update_client]) (auto simp: vcs_effects_def)
    qed
  qed
  show ?thesis
    unfolding tfe_vcs_connection_main_def
    apply (rule ci_ro_bindS[OF ro_vcs_required_if])
     apply (rule ci_ro_bindS[OF ro_get_org_name_when_exists])
      apply (simp only: bindS_returnS)
      apply (rule ci_ro_bindS[OF ro_try_except[OF ro_call ro_fail_json]])
        apply simp
       apply (rule ci_ro_bindS[OF ro_try_except[OF ro_call ro_fail_json]])
         apply simp
        apply (rule ci_ro_bindS[OF ro_resolve_client_id])
         apply (rule tail)
        apply (simp_all add: nil)
    done
qed

lemma eff_destroy_client:
  "emits (destroy_client api p org cid result) (effects_in {[], [Oauth_clients_destroy]})"
  unfolding destroy_client_def
  by (cases cid) (simp_all add: eff_returnS eff_act)

lemma eff_create_client:
  "emits (create_client api p org cid result) (effects_in {[], [Oauth_clients_create]})"
  unfolding create_client_def
  by (intro eff_if eff_returnS eff_act) simp_all

lemma eff_update_client:
  "emits (update_client api p org data cid result) (effects_in {[], [Oauth_clients_update]})"
proof (cases "state p = Present \<and> cid \<noteq> None")
  case False
  then have "update_client api p org data cid result = returnS result"
    by (auto simp: update_client_def split: option.splits)
  then show ?thesis by (simp add: eff_returnS)
next
  case True
  then obtain c where c: "cid = Some c" by auto
  have show_client: "emits (bindS (unguarded (call_endpoint p
                (invoke Oauth_clients_show (oauth_clients_show api c))))
              (\<lambda>response. returnS (r\<lparr>json := response\<rparr>))) (effects_in {[]})" for r
    by (intro eff_ro_bindS emits_unguarded ro_call eff_returnS) simp_all
  have change: "emits (bindS (if \<not> unchanged
                   then act p (invoke Oauth_clients_update
                                 (oauth_clients_update api c
                                    (PDict [(''data'', PDict [(''id'', PStr c),
                                       (''type'', PStr ''oauth-clients''),
                                       (''attributes'', case attributes p of None \<Rightarrow> PNone | Some a \<Rightarrow> PDict a)])])))
                          (unable_client ''update'' (client p) org) result
                   else returnS result) (\<lambda>result.
            bindS (unguarded (call_endpoint p (invoke Oauth_clients_show (oauth_clients_show api c))))
              (\<lambda>response. returnS (result\<lparr>json := response\<rparr>))))
          (effects_in {[], [Oauth_clients_update]})" for unchanged
    by (rule eff_bindS[where A = "{[], [Oauth_clients_update]}" and B = "{[]}"])
       (auto intro!: eff_if eff_act eff_returnS show_client)
  show ?thesis
    unfolding update_client_def c option.case
    using True
    by (auto intro!: eff_ro_bindS ro_pure_py change)
qed

lemma eff_tfe_vcs_connection_main:
  "emits (tfe_vcs_connection_main api p) (effects_in (set vcs_effects))"
proof -
  have nil: "[] \<in> set vcs_effects" by (simp add: vcs_effects_def)
  have tail: "emits (bindS (destroy_client api p org client_id result) (\<lambda>result.
     bindS (update_client api p org data client_id result) (\<lambda>result.
     create_client api p org client_id result))) (effects_in (set vcs_effects))"
    for org client_id result data
  proof (cases "state p")
    case Absent
    then have u: "update_client api p org data client_id = returnS"
      and c: "create_client api p org client_id = returnS"
      by (auto simp: update_client_def create_client_def split: option.splits)
    show ?thesis unfolding u c
      by (simp, rule eff_mono[OF eff_destroy_client]) (simp add: vcs_effects_def)
  next
    case Present
    then have d: "destroy_client api p org client_id = returnS"
      by (auto simp: destroy_client_def split: option.splits)
    show ?thesis
    proof (cases client_id)
      case None
      then have u: "update_client api p org data client_id = returnS"
        by (auto simp: update_client_def)
      show ?thesis unfolding d u
        by (simp, rule eff_mono[OF eff_create_client]) (simp add: vcs_effects_def)
    next
      case (Some cid)
      then have c: "create_client api p org client_id = returnS"
        by (auto simp: create_client_def)
      show ?thesis unfolding d c
        by (simp, rule eff_mono[OF eff_update_client]) (auto simp: vcs_effects_def)
    qed
  qed
  show ?thesis
    unfolding tfe_vcs_connection_main_def
    apply (rule eff_ro_bindS[OF ro_vcs_required_if])
     apply (rule eff_ro_bindS[OF ro_get_org_name_when_exists])
      apply (simp only: bindS_returnS)
      apply (rule eff_ro_bindS[OF ro_try_except[OF ro_call ro_fail_json]])
        apply simp
       apply (rule eff_ro_bindS[OF ro_try_except[OF ro_call ro_fail_json]])
         apply simp
        apply (rule eff_ro_bindS[OF ro_resolve_client_id])
         apply (rule tail)
        apply (simp_all add: nil)
    done
qed

text \<open>
  C2, as the code has it.  The mutating requests of one invocation are those of a
  sequence of calls of \<^verbatim>\<open>call_endpoint\<close>, each of which sends its request at least once
  and at most \<^verbatim>\<open>retries\<close> times.  An invocation of \<^verbatim>\<open>tfe_workspace\<close> makes a
  destroy call alone, or a create call alone, or, for an existing workspace with
  \<^verbatim>\<open>state=present\<close>, up to three mutating calls in this order: at most one update of the
  attributes, at most one of lock and unlock, and at most one of SSH key assignment and
  unassignment.  An invocation of \<^verbatim>\<open>tfe_vcs_connection\<close> makes at most one mutating
  call: a destroy, an update or a create.  The calls that returned are bounded in the same
  way.
\<close>

theorem mutating_calls_per_invocation:
  "(\<exists>evs eps ks.
      log (snd (tfe_workspace_main api p s)) = log s @ evs
      \<and> eps \<in> set workspace_effects \<and> length eps \<le> 3 \<and> length ks = length eps
      \<and> list_all (\<lambda>k. 0 < k \<and> int k \<le> retries p) ks
      \<and> attempted evs = concat (map2 replicate ks eps)
      \<and> effects evs \<in> set workspace_effects)
   \<and> (\<exists>evs eps ks.
      log (snd (tfe_vcs_connection_main api q s)) = log s @ evs
      \<and> eps \<in> set vcs_effects \<and> length eps \<le> 1 \<and> length ks = length eps
      \<and> list_all (\<lambda>k. 0 < k \<and> int k \<le> retries q) ks
      \<and> attempted evs = concat (map2 replicate ks eps)
      \<and> effects evs \<in> set vcs_effects)"
proof (rule conjI)
  obtain evs where evs: "log (snd (tfe_workspace_main api p s)) = log s @ evs"
      "calls_in (retries p) (set workspace_effects) evs"
    using emitsD[OF ci_tfe_workspace_main, of api p s] by blast
  obtain evs' where evs': "log (snd (tfe_workspace_main api p s)) = log s @ evs'"
      "effects evs' \<in> set workspace_effects"
    using emitsD[OF eff_tfe_workspace_main, of api p s] by (auto simp: effects_in_def)
  have same: "evs' = evs" using evs(1) evs'(1) by simp
  obtain eps ks where c: "eps \<in> set workspace_effects" "length ks = length eps"
      "list_all (\<lambda>k. 0 < k \<and> int k \<le> retries p) ks"
      "attempted evs = concat (map2 replicate ks eps)"
    using evs(2) unfolding calls_in_def by blast
  have "length eps \<le> 3"
    using c(1) by (auto simp: workspace_effects_def update_effects_def)
  then show "\<exists>evs eps ks.
      log (snd (tfe_workspace_main api p s)) = log s @ evs
      \<and> eps \<in> set workspace_effects \<and> length eps \<le> 3 \<and> length ks = length eps
      \<and> list_all (\<lambda>k. 0 < k \<and> int k \<le> retries p) ks
      \<and> attempted evs = concat (map2 replicate ks eps)
      \<and> effects evs \<in> set workspace_effects"
    using evs(1) evs'(2) same c by blast
next
  obtain evs where evs: "log (snd (tfe_vcs_connection_main api q s)) = log s @ evs"
      "calls_in (retries q) (set vcs_effects) evs"
    using emitsD[OF ci_tfe_vcs_connection_main, of api q s] by blast
  obtain evs' where evs': "log (snd (tfe_vcs_connection_main api q s)) = log s @ evs'"
      "effects evs' \<in> set vcs_effects"
    using emitsD[OF eff_tfe_vcs_connection_main, of api q s] by (auto simp: effects_in_def)
  have same: "evs' = evs" using evs(1) evs'(1) by simp
  obtain eps ks where c: "eps \<in> set vcs_effects" "length ks = length eps"
      "list_all (\<lambda>k. 0 < k \<and> int k \<le> retries q) ks"
      "attempted evs = concat (map2 replicate ks eps)"
    using evs(2) unfolding calls_in_def by blast
  have "length eps \<le> 1"
    using c(1) by (auto simp: vcs_effects_def)
  then show "\<exists>evs eps ks.
      log (snd (tfe_vcs_connection_main api q s)) = log s @ evs
      \<and> eps \<in> set vcs_effects \<and> length eps \<le> 1 \<and> length ks = length eps
      \<and> list_all (\<lambda>k. 0 < k \<and> int k \<le> retries q) ks
      \<and> attempted evs = concat (map2 replicate ks eps)
      \<and> effects evs \<in> set vcs_effects"
    using evs(1) evs'(2) same c by blast
qed

text \<open>C2 as stated fails: one invocation that changes an attribute and locks the
  workspace makes two mutating calls, and both return.\<close>

theorem update_and_lock_counterexample:
  "fst (tfe_workspace_main demo_api present_web start) =
     Inr \<lparr>changed = True, json = PDict [(''reason'', PStr ''maintenance'')],
          out_state = Present, out_organization = Some ''acme'', out_workspace = Some ''web'',
          out_client = None, out_attributes = Some [(''auto-apply'', PBool True)]\<rparr>
   \<and> attempted (log (snd (tfe_workspace_main demo_api present_web start))) =
       [Workspaces_update, Workspaces_lock]
   \<and> effects (log (snd (tfe_workspace_main demo_api present_web start))) =
       [Workspaces_update, Workspaces_lock]"
  by code_simp

subsection \<open>Resolution of identifiers\<close>

lemma any_m_id_is: "any_m (id_is ident) data = Inr (\<exists>r \<in> set data. res_id r = ident)"
  by (induction data) (auto simp: id_is_def)

lemma filter_m_id_is: "filter_m (id_is ident) data = Inr (filter (\<lambda>r. res_id r = ident) data)"
  by (induction data) (auto simp: id_is_def bindE_def)

lemma call_endpoint_always_fails_isl:
  fixes f :: "('w, 'r) remote"
  assumes "\<And>w. isl (fst (f w))"
  shows "isl (fst (call_endpoint_loop p (invoke ep f) exc n s))"
proof (induction p "invoke ep f :: 'w st \<Rightarrow> (exn + 'r) \<times> 'w st" exc n s
    rule: call_endpoint_loop.induct)
  case (1 p exc n s)
  obtain r w' where f: "f (world s) = (r, w')" by (cases "f (world s)")
  then obtain e where r: "r = Inl e" using assms[of "world s"] by (cases r) auto
  define s1 where "s1 = s\<lparr>world := w', log := log s @ [Invoked ep False]\<rparr>"
  have inv: "invoke ep f s = (Inl e, s1)" by (simp add: invoke_def f r s1_def)
  show ?case
  proof (cases "n \<le> retries p")
    case False
    then show ?thesis by (subst call_endpoint_loop.simps) (simp split: option.splits)
  next
    case le: True
    show ?thesis
    proof (cases "time_sleep (sleep p) s1")
      case (Pair x s2)
      show ?thesis
      proof (cases x)
        case (Inl e')
        then show ?thesis using le inv Pair by (subst call_endpoint_loop.simps) simp
      next
        case (Inr u)
        have "call_endpoint_loop p (invoke ep f) exc n s =
            call_endpoint_loop p (invoke ep f) (Some e) (n + 1) s2"
          using le inv Pair Inr by (subst call_endpoint_loop.simps) simp
        then show ?thesis using 1[OF le inv[symmetric] refl Pair[symmetric] Inr] by simp
      qed
    qed
  qed
qed

text \<open>
  C9.  When listing the organizations fails, that is when \<^verbatim>\<open>call_endpoint\<close> raises
  after its attempts, \<^verbatim>\<open>get_org_name_when_exists\<close> with its default
  \<^verbatim>\<open>return_org_name_on_unauthorized=True\<close> returns the organization it was given,
  unchanged: it neither fails nor returns \<^verbatim>\<open>None\<close>.  (With the flag off it fails with
  the "Unable to list organizations" message.)  This is so in particular whenever the list
  endpoint raises at every invocation.
\<close>

theorem get_org_name_falls_back_on_list_failure:
  "(call_endpoint p (invoke Orgs_list (orgs_list api)) s = (Inl e, s') \<longrightarrow>
      get_org_name_when_exists api p org True s = (Inr (Some org), s')
      \<and> get_org_name_when_exists api p org False s =
          (Inl (Fail_json (''Unable to list organizations. Error: '' @ to_native e @ ''.'')), s'))
   \<and> ((\<forall>w. isl (fst (orgs_list api w))) \<longrightarrow>
      fst (get_org_name_when_exists api p org True s) = Inr (Some org))"
proof (intro conjI impI)
  assume c: "call_endpoint p (invoke Orgs_list (orgs_list api)) s = (Inl e, s')"
  show "get_org_name_when_exists api p org True s = (Inr (Some org), s')"
    by (simp add: get_org_name_when_exists_def c)
  show "get_org_name_when_exists api p org False s =
      (Inl (Fail_json (''Unable to list organizations. Error: '' @ to_native e @ ''.'')), s')"
    by (simp add: get_org_name_when_exists_def c fail_json_def)
next
  assume "\<forall>w. isl (fst (orgs_list api w))"
  then have "isl (fst (call_endpoint p (invoke Orgs_list (orgs_list api)) s))"
    unfolding call_endpoint_def by (intro call_endpoint_always_fails_isl) simp
  then obtain e s' where "call_endpoint p (invoke Orgs_list (orgs_list api)) s = (Inl e, s')"
    by (cases "call_endpoint p (invoke Orgs_list (orgs_list api)) s";
        cases "fst (call_endpoint p (invoke Orgs_list (orgs_list api)) s)") auto
  then show "fst (get_org_name_when_exists api p org True s) = Inr (Some org)"
    by (simp add: get_org_name_when_exists_def)
qed

lemma unauthorized_list_call:
  "call_endpoint absent_ghost (invoke Orgs_list (orgs_list unauthorized_api)) start =
     (Inl (ApiError ''401 Unauthorized''),
      \<lparr>world = (), log = [Invoked Orgs_list False, Slept 5, Invoked Orgs_list False, Slept 5,
                            Invoked Orgs_list False, Slept 5]\<rparr>)"
  by code_simp

theorem get_org_name_falls_back_on_list_failure_witness:
  "call_endpoint absent_ghost (invoke Orgs_list (orgs_list unauthorized_api)) start =
     (Inl (ApiError ''401 Unauthorized''),
      \<lparr>world = (), log = [Invoked Orgs_list False, Slept 5, Invoked Orgs_list False, Slept 5,
                            Invoked Orgs_list False, Slept 5]\<rparr>)
   \<and> (\<forall>w. isl (fst (orgs_list unauthorized_api w)))
   \<and> fst (get_org_name_when_exists unauthorized_api absent_ghost ''no-such-org'' True start) =
       Inr (Some ''no-such-org'')"
  using get_org_name_falls_back_on_list_failure
          [of absent_ghost unauthorized_api start "ApiError ''401 Unauthorized''"
              "\<lparr>world = (), log = [Invoked Orgs_list False, Slept 5, Invoked Orgs_list False,
                  Slept 5, Invoked Orgs_list False, Slept 5]\<rparr>" "''no-such-org''"]
        unauthorized_list_call
  by (simp add: unauthorized_api_def)

text \<open>The run goes on with the organization it could not verify.\<close>

lemma unverified_organization_is_used:
  "tfe_workspace_main unauthorized_api (absent_ghost\<lparr>organization := ''no-such-org''\<rparr>) start =
     (Inr \<lparr>changed = False, json = PDict [], out_state = Absent,
           out_organization = Some ''no-such-org'', out_workspace = Some ''ghost'',
           out_client = None, out_attributes = None\<rparr>,
      \<lparr>world = (), log = [Invoked Orgs_list False, Slept 5, Invoked Orgs_list False, Slept 5,
                            Invoked Orgs_list False, Slept 5, Invoked Set_org True,
                            Invoked Workspaces_list_all True]\<rparr>)"
  by code_simp


text \<open>
  C1, as the code has it.  Take an invocation of \<^verbatim>\<open>tfe_workspace\<close> whose parameters
  pass the argument checks, whose organization lookup and two reading calls succeed, and
  whose \<^verbatim>\<open>workspace\<close> identifier matches no workspace of the fetched collection,
  neither by name nor by ID.  With \<^verbatim>\<open>state=absent\<close> it exits normally with
  \<^verbatim>\<open>changed=false\<close>; the "does not exist" error that names the workspace and the
  organization is raised with \<^verbatim>\<open>state=present\<close>.  Either way no mutating call is
  made.
\<close>

theorem absent_missing_workspace_is_no_op:
  assumes checks: "workspace_required_if p s = (Inr (), s)"
    and org: "get_org_name_when_exists api p (organization p) True s = (Inr org, s1)"
    and set_org: "call_endpoint p (invoke Set_org (set_org api org)) s1 = (Inr u, s2)"
    and list: "call_endpoint p (invoke Workspaces_list_all (workspaces_list_all api)) s2 =
                 (Inr data, s3)"
    and ws: "workspace p = Some ws"
    and no_name: "any_m (name_is (PStr ws)) data = Inr False"
    and no_id: "\<forall>w \<in> set data. res_id w \<noteq> ws"
  shows "(state p = Absent \<longrightarrow>
            tfe_workspace_main api p s =
              (Inr \<lparr>changed = False, json = PDict [], out_state = Absent,
                    out_organization = org, out_workspace = Some ws, out_client = None,
                    out_attributes = attributes p\<rparr>, s3))
       \<and> (state p = Present \<longrightarrow>
            tfe_workspace_main api p s = (Inl (Fail_json (workspace_not_found ws org)), s3))
       \<and> (\<exists>evs. log s3 = log s @ evs \<and> reads_only evs)"
proof (intro conjI impI)
  have by_id: "any_m (id_is ws) data = Inr False"
    using no_id by (simp add: any_m_id_is)
  have resolve: "resolve_workspace_id p org data s3 =
      (if state p = Present then (Inl (Fail_json (workspace_not_found ws org)), s3)
       else (Inr None, s3))"
    by (simp add: resolve_workspace_id_def ws no_name by_id bindS_def pure_py_def
        fail_json_def returnS_def)
  have prefix: "tfe_workspace_main api p s =
      bindS (resolve_workspace_id p org data) (\<lambda>workspace_id.
        bindS (destroy_workspace api p org workspace_id
                 \<lparr>changed = False, json = PDict [], out_state = state p,
                  out_organization = org, out_workspace = workspace p,
                  out_client = None, out_attributes = attributes p\<rparr>) (\<lambda>result.
        bindS (update_workspace api p org data workspace_id result) (\<lambda>result.
        create_workspace api p org workspace_id result))) s3"
    unfolding tfe_workspace_main_def
    by (simp add: bindS_def checks org set_org list try_except_def)
  show "tfe_workspace_main api p s =
              (Inr \<lparr>changed = False, json = PDict [], out_state = Absent,
                    out_organization = org, out_workspace = Some ws, out_client = None,
                    out_attributes = attributes p\<rparr>, s3)"
    if "state p = Absent"
    unfolding prefix
    using that resolve
    by (simp add: bindS_def destroy_workspace_def update_workspace_def create_workspace_def
        returnS_def ws)
  show "tfe_workspace_main api p s = (Inl (Fail_json (workspace_not_found ws org)), s3)"
    if "state p = Present"
    unfolding prefix using that resolve by (simp add: bindS_def)
  obtain a where a: "log s1 = log s @ a" "reads_only a"
    using emitsD[OF ro_get_org_name_when_exists, of api p "organization p" True s] org by auto
  obtain b where b: "log s2 = log s1 @ b" "reads_only b"
    using emitsD[OF ro_call, of Set_org p "set_org api org" s1] set_org by auto
  obtain c where c: "log s3 = log s2 @ c" "reads_only c"
    using emitsD[OF ro_call, of Workspaces_list_all p "workspaces_list_all api" s2] list by auto
  show "\<exists>evs. log s3 = log s @ evs \<and> reads_only evs"
    using a b c by (intro exI[of _ "a @ b @ c"]) simp
qed

text \<open>C1 as stated fails: \<^verbatim>\<open>state=absent\<close> for a workspace that matches nothing
  ends with \<^verbatim>\<open>exit_json\<close>, not with an error.\<close>

theorem absent_missing_workspace_counterexample:
  "workspace absent_ghost = Some ''ghost'' \<and> state absent_ghost = Absent
   \<and> any_m (name_is (PStr ''ghost'')) [web] = Inr False
   \<and> any_m (id_is ''ghost'') [web] = Inr False
   \<and> tfe_workspace_main demo_api absent_ghost start =
       (Inr \<lparr>changed = False, json = PDict [], out_state = Absent,
             out_organization = Some ''acme'', out_workspace = Some ''ghost'',
             out_client = None, out_attributes = None\<rparr>,
        \<lparr>world = (), log = [Invoked Orgs_list True, Invoked Set_org True,
                              Invoked Workspaces_list_all True]\<rparr>)"
  by code_simp


lemma present_ghost_calls:
  "workspace_required_if present_ghost start = (Inr (), start)"
  "get_org_name_when_exists demo_api present_ghost (organization present_ghost) True start =
     (Inr (Some ''acme''), \<lparr>world = (), log = [Invoked Orgs_list True]\<rparr>)"
  "call_endpoint present_ghost (invoke Set_org (set_org demo_api (Some ''acme'')))
     \<lparr>world = (), log = [Invoked Orgs_list True]\<rparr> =
     (Inr PNone, \<lparr>world = (), log = [Invoked Orgs_list True, Invoked Set_org True]\<rparr>)"
  "call_endpoint present_ghost (invoke Workspaces_list_all (workspaces_list_all demo_api))
     \<lparr>world = (), log = [Invoked Orgs_list True, Invoked Set_org True]\<rparr> =
     (Inr [web], \<lparr>world = (), log = [Invoked Orgs_list True, Invoked Set_org True,
                                        Invoked Workspaces_list_all True]\<rparr>)"
  "workspace present_ghost = Some ''ghost''"
  "any_m (name_is (PStr ''ghost'')) [web] = Inr False"
  "\<forall>w \<in> set [web]. res_id w \<noteq> ''ghost''"
  "state present_ghost = Present"
  by code_simp+

lemma absent_ghost_calls:
  "workspace_required_if absent_ghost start = (Inr (), start)"
  "get_org_name_when_exists demo_api absent_ghost (organization absent_ghost) True start =
     (Inr (Some ''acme''), \<lparr>world = (), log = [Invoked Orgs_list True]\<rparr>)"
  "call_endpoint absent_ghost (invoke Set_org (set_org demo_api (Some ''acme'')))
     \<lparr>world = (), log = [Invoked Orgs_list True]\<rparr> =
     (Inr PNone, \<lparr>world = (), log = [Invoked Orgs_list True, Invoked Set_org True]\<rparr>)"
  "call_endpoint absent_ghost (invoke Workspaces_list_all (workspaces_list_all demo_api))
     \<lparr>world = (), log = [Invoked Orgs_list True, Invoked Set_org True]\<rparr> =
     (Inr [web], \<lparr>world = (), log = [Invoked Orgs_list True, Invoked Set_org True,
                                        Invoked Workspaces_list_all True]\<rparr>)"
  "workspace absent_ghost = Some ''ghost''"
  "any_m (name_is (PStr ''ghost'')) [web] = Inr False"
  "\<forall>w \<in> set [web]. res_id w \<noteq> ''ghost''"
  "state absent_ghost = Absent"
  by code_simp+

theorem absent_missing_workspace_is_no_op_witness:
  "workspace_required_if absent_ghost start = (Inr (), start)
   \<and> workspace absent_ghost = Some ''ghost''
   \<and> any_m (name_is (PStr ''ghost'')) [web] = Inr False
   \<and> res_id web \<noteq> ''ghost''
   \<and> state absent_ghost = Absent
   \<and> changed (projr (fst (tfe_workspace_main demo_api absent_ghost start))) = False
   \<and> state present_ghost = Present
   \<and> tfe_workspace_main demo_api present_ghost start =
       (Inl (Fail_json (workspace_not_found ''ghost'' (Some ''acme''))),
        \<lparr>world = (), log = [Invoked Orgs_list True, Invoked Set_org True,
                              Invoked Workspaces_list_all True]\<rparr>)"
  using absent_missing_workspace_is_no_op [OF present_ghost_calls(1-7)] present_ghost_calls
    absent_missing_workspace_is_no_op [OF absent_ghost_calls(1-7)] absent_ghost_calls
  by simp

lemma vcs_messages_differ: "multiple_clients cl org \<noteq> client_not_found cl org"
  by (simp add: multiple_clients_def client_not_found_def)

text \<open>
  C7.  Take an invocation of \<^verbatim>\<open>tfe_vcs_connection\<close> whose parameters pass the
  argument checks and whose organization lookup and two reading calls succeed.  When the
  \<^verbatim>\<open>client\<close> token is the ID of no OAuth client and two or more OAuth clients of the
  organization have it as their name, the invocation fails with the "Found multiple OAuth
  Clients" message, which differs from the "does not exist" message; no client is picked
  and no mutating call is made.
\<close>

theorem ambiguous_client_name_is_fatal:
  assumes checks: "vcs_required_if p s = (Inr (), s)"
    and org: "get_org_name_when_exists api p (organization p) True s = (Inr org, s1)"
    and set_org: "call_endpoint p (invoke Set_org (set_org api org)) s1 = (Inr u, s2)"
    and list: "call_endpoint p (invoke Oauth_clients_list (oauth_clients_list api)) s2 =
                 (Inr data, s3)"
    and cl: "client p = Some cl"
    and no_id: "\<forall>oc \<in> set data. res_id oc \<noteq> cl"
    and named: "filter_m (name_is (PStr cl)) data = Inr named"
    and many: "2 \<le> length named"
  shows "tfe_vcs_connection_main api p s = (Inl (Fail_json (multiple_clients cl org)), s3)
       \<and> multiple_clients cl org \<noteq> client_not_found cl org
       \<and> (\<exists>evs. log s3 = log s @ evs \<and> reads_only evs)"
proof (intro conjI)
  have by_id: "filter_m (id_is cl) data = Inr []"
    using no_id by (simp add: filter_m_id_is filter_empty_conv)
  have resolve: "resolve_client_id p org data s3 = (Inl (Fail_json (multiple_clients cl org)), s3)"
    using many
    by (simp add: resolve_client_id_def cl by_id named bindS_def pure_py_def fail_json_def
        returnS_def Let_def)
  show "tfe_vcs_connection_main api p s = (Inl (Fail_json (multiple_clients cl org)), s3)"
    unfolding tfe_vcs_connection_main_def
    by (simp add: bindS_def checks org set_org list try_except_def resolve)
  show "multiple_clients cl org \<noteq> client_not_found cl org"
    by (rule vcs_messages_differ)
  obtain a where a: "log s1 = log s @ a" "reads_only a"
    using emitsD[OF ro_get_org_name_when_exists, of api p "organization p" True s] org by auto
  obtain b where b: "log s2 = log s1 @ b" "reads_only b"
    using emitsD[OF ro_call, of Set_org p "set_org api org" s1] set_org by auto
  obtain c where c: "log s3 = log s2 @ c" "reads_only c"
    using emitsD[OF ro_call, of Oauth_clients_list p "oauth_clients_list api" s2] list by auto
  show "\<exists>evs. log s3 = log s @ evs \<and> reads_only evs"
    using a b c by (intro exI[of _ "a @ b @ c"]) simp
qed

lemma absent_github_calls:
  "vcs_required_if absent_github start = (Inr (), start)"
  "get_org_name_when_exists demo_api absent_github (organization absent_github) True start =
     (Inr (Some ''acme''), \<lparr>world = (), log = [Invoked Orgs_list True]\<rparr>)"
  "call_endpoint absent_github (invoke Set_org (set_org demo_api (Some ''acme'')))
     \<lparr>world = (), log = [Invoked Orgs_list True]\<rparr> =
     (Inr PNone, \<lparr>world = (), log = [Invoked Orgs_list True, Invoked Set_org True]\<rparr>)"
  "call_endpoint absent_github (invoke Oauth_clients_list (oauth_clients_list demo_api))
     \<lparr>world = (), log = [Invoked Orgs_list True, Invoked Set_org True]\<rparr> =
     (Inr [github_1, github_2],
      \<lparr>world = (), log = [Invoked Orgs_list True, Invoked Set_org True,
                            Invoked Oauth_clients_list True]\<rparr>)"
  "client absent_github = Some ''github''"
  "\<forall>oc \<in> set [github_1, github_2]. res_id oc \<noteq> ''github''"
  "filter_m (name_is (PStr ''github'')) [github_1, github_2] = Inr [github_1, github_2]"
  "2 \<le> length [github_1, github_2]"
  by code_simp+

theorem ambiguous_client_name_is_fatal_witness:
  "vcs_required_if absent_github start = (Inr (), start)
   \<and> client absent_github = Some ''github''
   \<and> res_id github_1 \<noteq> ''github'' \<and> res_id github_2 \<noteq> ''github''
   \<and> filter_m (name_is (PStr ''github'')) [github_1, github_2] = Inr [github_1, github_2]
   \<and> 2 \<le> length [github_1, github_2]
   \<and> tfe_vcs_connection_main demo_api absent_github start =
       (Inl (Fail_json (multiple_clients ''github'' (Some ''acme''))),
        \<lparr>world = (), log = [Invoked Orgs_list True, Invoked Set_org True,
                              Invoked Oauth_clients_list True]\<rparr>)"
  using ambiguous_client_name_is_fatal [OF absent_github_calls] absent_github_calls
  by simp

end
